theory Spec2Isabelle
  imports Complex_Main
begin

section \<open>Strings and errors\<close>

text \<open>
  The program is one Python module, \<^verbatim>\<open>main.py\<close>. A Python \<^verbatim>\<open>str\<close> is modelled as a
  \<^typ>\<open>string\<close> holding its UTF-8 bytes. Every character the program tests for (comma,
  double quote, blank, full stop, the digits) is ASCII, and no byte of a longer UTF-8
  sequence is ASCII, so splitting, stripping and filtering act on the bytes as they act
  on the code points.

  Every exception that the module or the library calls it makes can raise is a value
  of \<open>error\<close>; no exception is caught anywhere in the module.
\<close>

datatype error =
    IndexError
  | KeyError string
  | AttributeError
  | ValueError
  | TypeError
  | EmptyDataError
  | ParserError
  | OSError

definition comma :: char where
  "comma = CHR 0x2C"

definition dquote :: char where
  "dquote = CHR 0x22"

definition pound :: string where
  \<comment> \<open>the pound sign U+00A3 in UTF-8\<close>
  "pound = [CHR 0xC2, CHR 0xA3]"

text \<open>
  \<^verbatim>\<open>s.split(c)\<close> for a separator of one character: the fields between the
  separators, one field more than there are separators. The result is never empty; the
  second branch of the \<open>case\<close> is there for totality only.
\<close>

fun split_on :: "char \<Rightarrow> string \<Rightarrow> string list" where
  "split_on c [] = [[]]"
| "split_on c (x # xs) =
     (if x = c then [] # split_on c xs
      else (case split_on c xs of
              f # fs \<Rightarrow> (x # f) # fs
            | [] \<Rightarrow> [[x]]))"

text \<open>\<^verbatim>\<open>s.strip(c)\<close>: every leading and every trailing occurrence of \<open>c\<close> is removed.\<close>

definition strip :: "char \<Rightarrow> string \<Rightarrow> string" where
  "strip c s = rev (dropWhile (\<lambda>x. x = c) (rev (dropWhile (\<lambda>x. x = c) s)))"

text \<open>
  \<^verbatim>\<open>def extract_account_name(summary_row):
      return summary_row.split(',')[1].strip('"')\<close>
  Index 1 of a list with fewer than two elements raises \<open>IndexError\<close>.
\<close>

definition extract_account_name :: "string \<Rightarrow> error + string" where
  "extract_account_name summary_row =
     (case split_on comma summary_row of
        _ # f # _ \<Rightarrow> Inr (strip dquote f)
      | _ \<Rightarrow> Inl IndexError)"

section \<open>Columns\<close>

text \<open>
  A pandas \<^verbatim>\<open>Series\<close> is a column: its dtype and its cells. The dtypes are the ones
  \<^verbatim>\<open>read_csv\<close> and the module itself produce. A \<^verbatim>\<open>float64\<close> cell is \<open>NaN\<close> (the
  missing marker) or a number; a number is kept as the exact decimal value that was
  parsed (a rational), the rounding of that decimal to the nearest binary double is not
  modelled. A cell of an \<^verbatim>\<open>object\<close> column is a Python object: a \<^verbatim>\<open>str\<close>, the missing
  marker, a \<^verbatim>\<open>bool\<close> (what \<^verbatim>\<open>read_csv\<close> leaves in a column of truth values with gaps)
  or a \<^verbatim>\<open>datetime.date\<close> (what line 71 stores). A \<^verbatim>\<open>datetime64\<close> cell is a date or
  \<^verbatim>\<open>NaT\<close> (\<open>None\<close>); the time of day is always midnight and is left out.
\<close>

datatype date = Date (year: nat) (month: nat) (day: nat)

datatype num = NaN | Num rat

datatype obj = Text string | Missing | Truth bool | Day date

datatype series =
    Float64 "num list"
  | Object "obj list"
  | Int64 "int list"
  | Bool "bool list"
  | Datetime64 "date option list"

definition dtype :: "series \<Rightarrow> string" where
  "dtype s =
     (case s of
        Float64 _ \<Rightarrow> ''float64''
      | Object _ \<Rightarrow> ''object''
      | Int64 _ \<Rightarrow> ''int64''
      | Bool _ \<Rightarrow> ''bool''
      | Datetime64 _ \<Rightarrow> ''datetime64[ns]'')"

text \<open>
  What the module prints, one constructor for each \<^verbatim>\<open>print\<close> of the source:
  \<^item> \<open>NotStringOrFloat t\<close>: "The column data type is not a string or float. It's a t type."
  \<^item> \<open>Uploaded p\<close>: "Uploaded data from p to BigQuery"
  \<^item> \<open>AllProcessed\<close>: "All files have been processed and uploaded."
  \<^item> \<open>DuplicatesRemoved n\<close>: "n duplicate rows were removed."
\<close>

datatype message =
    NotStringOrFloat string
  | Uploaded string
  | AllProcessed
  | DuplicatesRemoved int

fun sequence :: "(error + 'a) list \<Rightarrow> error + 'a list" where
  "sequence [] = Inr []"
| "sequence (Inl e # _) = Inl e"
| "sequence (Inr x # rest) =
     (case sequence rest of Inl e \<Rightarrow> Inl e | Inr xs \<Rightarrow> Inr (x # xs))"

subsection \<open>Numbers in text\<close>

definition is_digit :: "char \<Rightarrow> bool" where
  "is_digit c = (c \<in> set ''0123456789'')"

definition digit_val :: "char \<Rightarrow> nat" where
  "digit_val c = (case map_of (zip ''0123456789'' [0, 1, 2, 3, 4, 5, 6, 7, 8, 9]) c of
                    Some n \<Rightarrow> n | None \<Rightarrow> 0)"

definition digits_val :: "string \<Rightarrow> nat" where
  "digits_val ds = foldl (\<lambda>n c. 10 * n + digit_val c) 0 ds"

text \<open>
  The decimal spellings the numeric parsers of pandas accept, as far as they are
  modelled: an optional sign, digits, and at most one full stop, with a digit on at
  least one side of it. Exponents, blanks around the number and the spellings of
  infinity are not modelled (\<^verbatim>\<open>read_csv\<close> reads \<^verbatim>\<open>1e5\<close> as a number, here it is
  text); none of them survives the cleaning of \<open>currency_to_float\<close>.
\<close>

definition unsigned_decimal :: "string \<Rightarrow> rat option" where
  "unsigned_decimal s =
     (let ip = takeWhile (\<lambda>c. c \<noteq> CHR ''.'') s;
          fp = drop 1 (dropWhile (\<lambda>c. c \<noteq> CHR ''.'') s)
      in if list_all is_digit ip \<and> list_all is_digit fp \<and> (ip \<noteq> [] \<or> fp \<noteq> [])
         then Some (of_nat (digits_val ip) + of_nat (digits_val fp) / 10 ^ length fp)
         else None)"

definition parse_decimal :: "string \<Rightarrow> rat option" where
  "parse_decimal s =
     (case s of
        [] \<Rightarrow> None
      | c # r \<Rightarrow>
          if c = CHR ''-'' then map_option uminus (unsigned_decimal r)
          else if c = CHR ''+'' then unsigned_decimal r
          else unsigned_decimal s)"

definition parse_whole :: "string \<Rightarrow> int option" where
  "parse_whole s =
     (case s of
        [] \<Rightarrow> None
      | c # r \<Rightarrow>
          if c = CHR ''-'' then
            (if r \<noteq> [] \<and> list_all is_digit r then Some (- int (digits_val r)) else None)
          else if c = CHR ''+'' then
            (if r \<noteq> [] \<and> list_all is_digit r then Some (int (digits_val r)) else None)
          else (if list_all is_digit s then Some (int (digits_val s)) else None))"

subsection \<open>The currency normalizer\<close>

text \<open>
  \<^verbatim>\<open>currency_series.str.replace('[^0-9.]', '', regex=True)\<close>.
  The \<^verbatim>\<open>.str\<close> accessor first looks at the cells that are present: it raises
  \<open>AttributeError\<close> ("Can only use .str accessor with string values!") when there are
  some and all of them are of one kind that is not \<^verbatim>\<open>str\<close>. Otherwise every string has
  each character outside the class \<^verbatim>\<open>0-9.\<close> removed and every other cell becomes
  the missing marker. The result holds a string or the missing marker (\<open>None\<close>) in
  each cell.
\<close>

definition keep :: "char \<Rightarrow> bool" where
  "keep c = (c \<in> set ''0123456789.'')"

definition clean :: "string \<Rightarrow> string" where
  "clean s = filter keep s"

fun is_truth :: "obj \<Rightarrow> bool" where
  "is_truth (Truth _) = True"
| "is_truth _ = False"

fun is_day :: "obj \<Rightarrow> bool" where
  "is_day (Day _) = True"
| "is_day _ = False"

definition str_accessor_ok :: "obj list \<Rightarrow> bool" where
  "str_accessor_ok cells =
     (let present = filter (\<lambda>c. c \<noteq> Missing) cells
      in present = [] \<or> \<not> (list_all is_truth present \<or> list_all is_day present))"

fun str_replace_cell :: "obj \<Rightarrow> string option" where
  "str_replace_cell (Text s) = Some (clean s)"
| "str_replace_cell _ = None"

definition str_replace :: "obj list \<Rightarrow> error + string option list" where
  "str_replace cells =
     (if str_accessor_ok cells then Inr (map str_replace_cell cells) else Inl AttributeError)"

text \<open>
  \<^verbatim>\<open>pd.to_numeric(cleaned_series, errors=...)\<close> on such a column. The empty string and
  the missing marker give \<open>NaN\<close>. A string that is no number raises \<open>ValueError\<close> when
  \<^verbatim>\<open>errors='raise'\<close> and gives \<open>NaN\<close> when \<^verbatim>\<open>errors='coerce'\<close>. The result is an
  \<^verbatim>\<open>int64\<close> column when every cell is a whole number, a \<^verbatim>\<open>float64\<close> column otherwise.
  The whole numbers are not bounded here; past the range of \<^verbatim>\<open>int64\<close> pandas changes
  the dtype of the result, not its values.
\<close>

datatype errors_mode = Raise | Coerce

definition numeric_cell :: "string option \<Rightarrow> num" where
  "numeric_cell c =
     (case c of
        None \<Rightarrow> NaN
      | Some s \<Rightarrow> (case parse_decimal s of None \<Rightarrow> NaN | Some q \<Rightarrow> Num q))"

definition unparseable :: "string option \<Rightarrow> bool" where
  "unparseable c = (case c of None \<Rightarrow> False | Some s \<Rightarrow> s \<noteq> [] \<and> parse_decimal s = None)"

definition to_numeric :: "errors_mode \<Rightarrow> string option list \<Rightarrow> error + series" where
  "to_numeric errors cells =
     (if errors = Raise \<and> list_ex unparseable cells then Inl ValueError
      else (case those (map (\<lambda>c. Option.bind c parse_whole) cells) of
              Some ns \<Rightarrow> Inr (Int64 ns)
            | None \<Rightarrow> Inr (Float64 (map numeric_cell cells))))"

text \<open>
  \<^verbatim>\<open>def currency_to_float(currency_series):
      if currency_series.dtype == 'float64':
          return currency_series
      elif currency_series.dtype == 'object':
          cleaned_series = currency_series.str.replace('[^0-9.]', '', regex=True)
          return pd.to_numeric(cleaned_series, errors='coerce')
      else:
          print(f"The column data type is not a string or float. It's a {currency_series.dtype} type.")
          return currency_series\<close>
  The result is what was printed and what was returned or raised.
\<close>

definition currency_to_float :: "series \<Rightarrow> message list \<times> (error + series)" where
  "currency_to_float currency_series =
     (case currency_series of
        Float64 _ \<Rightarrow> ([], Inr currency_series)
      | Object cells \<Rightarrow>
          ([], case str_replace cells of
                 Inl e \<Rightarrow> Inl e
               | Inr cleaned_series \<Rightarrow> to_numeric Coerce cleaned_series)
      | _ \<Rightarrow> ([NotStringOrFloat (dtype currency_series)], Inr currency_series))"

section \<open>Frames\<close>

text \<open>
  A \<^verbatim>\<open>DataFrame\<close>: the number of rows and the named columns in their order; every
  column has \<open>nrows\<close> cells. Names can repeat (after the renaming of line 74), so the
  columns are an association list.
\<close>

record frame =
  nrows :: nat
  cols :: "(string \<times> series) list"

text \<open>
  \<^verbatim>\<open>data[name]\<close>: the columns of that name; \<open>KeyError\<close> when there is none. One
  column is a \<^verbatim>\<open>Series\<close>, several are a \<^verbatim>\<open>DataFrame\<close>.
\<close>

definition getitem :: "frame \<Rightarrow> string \<Rightarrow> error + series list" where
  "getitem data name =
     (case map snd (filter (\<lambda>(n, _). n = name) (cols data)) of
        [] \<Rightarrow> Inl (KeyError name)
      | ss \<Rightarrow> Inr ss)"

text \<open>
  \<^verbatim>\<open>data[name] = value\<close>: the column of that name is replaced where it is; a new name
  is appended as the last column.
\<close>

definition setitem :: "frame \<Rightarrow> string \<Rightarrow> series \<Rightarrow> frame" where
  "setitem data name s =
     (if name \<in> set (map fst (cols data))
      then data\<lparr>cols := map (\<lambda>(n, old). if n = name then (n, s) else (n, old)) (cols data)\<rparr>
      else data\<lparr>cols := cols data @ [(name, s)]\<rparr>)"

text \<open>
  \<^verbatim>\<open>data.columns.str.replace(' ', '_').str.lower()\<close>, on ASCII letters (a column name
  with a capital letter outside ASCII keeps it here).
\<close>

definition lower_char :: "char \<Rightarrow> char" where
  "lower_char c =
     (case map_of (zip ''ABCDEFGHIJKLMNOPQRSTUVWXYZ'' ''abcdefghijklmnopqrstuvwxyz'') c of
        Some l \<Rightarrow> l
      | None \<Rightarrow> c)"

definition rename_column :: "string \<Rightarrow> string" where
  "rename_column name = map lower_char (map (\<lambda>c. if c = CHR '' '' then CHR ''_'' else c) name)"

definition rename_columns :: "frame \<Rightarrow> frame" where
  "rename_columns data = data\<lparr>cols := map (\<lambda>(n, s). (rename_column n, s)) (cols data)\<rparr>"

subsection \<open>Reading a source file\<close>

text \<open>
  A source file as the module reads it: \<open>first_line\<close> is the text that
  \<^verbatim>\<open>file.readline()\<close> returns (the first line with its newline; empty for an empty
  file), and \<open>later_lines\<close> holds, for every line after the first, the fields that the
  CSV reader splits it into (quoting resolved; a blank line has no field).
\<close>

record source_file =
  first_line :: string
  later_lines :: "string list list"

definition na_values :: "string list" where
  \<comment> \<open>the spellings \<^verbatim>\<open>read_csv\<close> reads as a missing value\<close>
  "na_values = [[], ''#N/A'', ''#N/A N/A'', ''#NA'', ''-1.#IND'', ''-1.#QNAN'', ''-NaN'',
     ''-nan'', ''1.#IND'', ''1.#QNAN'', ''<NA>'', ''N/A'', ''NA'', ''NULL'', ''NaN'', ''None'',
     ''n/a'', ''nan'', ''null'']"

definition truth_value :: "string \<Rightarrow> bool option" where
  "truth_value s =
     (if s \<in> set [''True'', ''TRUE'', ''true''] then Some True
      else if s \<in> set [''False'', ''FALSE'', ''false''] then Some False
      else None)"

text \<open>
  The dtype \<^verbatim>\<open>read_csv\<close> gives a column: whole numbers are \<^verbatim>\<open>int64\<close> (\<^verbatim>\<open>float64\<close> when
  a value is missing), decimal numbers are \<^verbatim>\<open>float64\<close>, truth values are \<^verbatim>\<open>bool\<close>
  (\<^verbatim>\<open>object\<close> when a value is missing), anything else is an \<^verbatim>\<open>object\<close> column of
  strings and missing markers. A column without rows is an \<^verbatim>\<open>object\<close> column.
\<close>

definition infer_column :: "string list \<Rightarrow> series" where
  "infer_column texts =
     (let cells = map (\<lambda>s. if s \<in> set na_values then None else Some s) texts;
          present = map the (filter (\<lambda>c. c \<noteq> None) cells)
      in if cells = [] then Object []
         else if list_all (\<lambda>s. parse_whole s \<noteq> None) present then
           (case those (map (\<lambda>c. Option.bind c parse_whole) cells) of
              Some ns \<Rightarrow> Int64 ns
            | None \<Rightarrow> Float64 (map numeric_cell cells))
         else if list_all (\<lambda>s. parse_decimal s \<noteq> None) present then
           Float64 (map numeric_cell cells)
         else if list_all (\<lambda>s. truth_value s \<noteq> None) present then
           (case those (map (\<lambda>c. Option.bind c truth_value) cells) of
              Some bs \<Rightarrow> Bool bs
            | None \<Rightarrow> Object (map (\<lambda>c. case Option.bind c truth_value of
                                            Some b \<Rightarrow> Truth b | None \<Rightarrow> Missing) cells))
         else Object (map (\<lambda>c. case c of Some s \<Rightarrow> Text s | None \<Rightarrow> Missing) cells))"

text \<open>
  \<^verbatim>\<open>pd.read_csv(file_path, skiprows=4)\<close>, for \<open>skiprows \<ge> 1\<close>: the first
  \<open>skiprows\<close> lines of the file are dropped (the first line among them), blank lines
  are passed over, the next line is the header and every further line is a record.
  Nothing left to read raises \<open>EmptyDataError\<close>; a record with more fields than the
  header raises \<open>ParserError\<close>; a shorter record is filled up with missing values.
  Header names are taken as they stand. This is \<^verbatim>\<open>read_csv\<close> on files whose records
  are no longer than the header and whose header names are distinct and not empty.
  Outside of them pandas differs: it takes the surplus leading fields of a longer first
  record as an index instead of raising, and it renames a repeated header name
  (\<^verbatim>\<open>Date.1\<close>) and an empty one (\<^verbatim>\<open>Unnamed: 0\<close>).
\<close>

definition read_csv :: "nat \<Rightarrow> source_file \<Rightarrow> error + frame" where
  "read_csv skiprows f =
     (case filter (\<lambda>l. l \<noteq> []) (drop (skiprows - 1) (later_lines f)) of
        [] \<Rightarrow> Inl EmptyDataError
      | header # records \<Rightarrow>
          if list_ex (\<lambda>r. length header < length r) records then Inl ParserError
          else Inr \<lparr>nrows = length records,
                    cols = map (\<lambda>j. (header ! j,
                                       infer_column (map (\<lambda>r. if j < length r then r ! j else [])
                                                         records)))
                               [0..<length header]\<rparr>)"

subsection \<open>Dates\<close>

definition month_names :: "string list" where
  "month_names = [''jan'', ''feb'', ''mar'', ''apr'', ''may'', ''jun'',
                  ''jul'', ''aug'', ''sep'', ''oct'', ''nov'', ''dec'']"

definition month_number :: "string \<Rightarrow> nat option" where
  "month_number s = map_of (zip month_names [1, 2, 3, 4, 5, 6, 7, 8, 9, 10, 11, 12])
                           (map lower_char s)"

definition leap_year :: "nat \<Rightarrow> bool" where
  "leap_year y = (y mod 4 = 0 \<and> (y mod 100 \<noteq> 0 \<or> y mod 400 = 0))"

definition days_in_month :: "nat \<Rightarrow> nat \<Rightarrow> nat" where
  "days_in_month y m =
     (if m = 2 then (if leap_year y then 29 else 28)
      else if m \<in> set [4, 6, 9, 11] then 30
      else 31)"

definition date_le :: "date \<Rightarrow> date \<Rightarrow> bool" where
  "date_le a b =
     (year a < year b \<or>
      (year a = year b \<and> (month a < month b \<or> (month a = month b \<and> day a \<le> day b))))"

text \<open>
  The ASCII characters that count as white space in a Python regular expression: the
  blank, the five control characters from tab to carriage return, and the four
  separators \<^verbatim>\<open>0x1C\<close> to \<^verbatim>\<open>0x1F\<close>.
\<close>

definition is_space :: "char \<Rightarrow> bool" where
  "is_space c = (c \<in> set [CHR '' '', CHR 0x09, CHR 0x0A, CHR 0x0B, CHR 0x0C, CHR 0x0D,
                           CHR 0x1C, CHR 0x1D, CHR 0x1E, CHR 0x1F])"



text \<open>
  The parser of the format: a text that matches the pattern is read as the date it
  spells. The date must exist in the calendar and lie in the range a
  \<^verbatim>\<open>datetime64[ns]\<close> can hold; a text that does not match, or spells no such date, is
  rejected (\<open>None\<close>).
\<close>

definition strptime :: "string \<Rightarrow> date option" where
  "strptime s =
     (let padded = (take 1 s = '' '');
          s1 = (if padded then drop 1 s else s);
          d = takeWhile is_digit s1;
          r1 = dropWhile is_digit s1;
          r2 = dropWhile is_space r1;
          r3 = drop 3 r2;
          r4 = dropWhile is_space r3
      in if (if padded then length d = 1 else length d = 1 \<or> length d = 2)
            \<and> 1 \<le> digits_val d \<and> digits_val d \<le> 31
            \<and> r1 \<noteq> r2 \<and> r3 \<noteq> r4 \<and> length r4 = 4 \<and> list_all is_digit r4
         then (case month_number (take 3 r2) of
                 None \<Rightarrow> None
               | Some m \<Rightarrow>
                   let dt = Date (digits_val r4) m (digits_val d)
                   in if day dt \<le> days_in_month (year dt) m
                         \<and> date_le (Date 1677 9 22) dt \<and> date_le dt (Date 2262 4 11)
                      then Some dt else None)
         else None)"

definition nat_strings :: "string list" where
  \<comment> \<open>text that \<^verbatim>\<open>to_datetime\<close> reads as \<^verbatim>\<open>NaT\<close>\<close>
  "nat_strings = [[], ''NaT'', ''nat'', ''NAT'', ''nan'', ''NaN'', ''NAN'']"

text \<open>
  \<^verbatim>\<open>pd.to_datetime(column, format='%d %b %Y')\<close>, with the default \<^verbatim>\<open>errors='raise'\<close>.
  A missing cell becomes \<^verbatim>\<open>NaT\<close>; a string is parsed with the format and raises
  \<open>ValueError\<close> when the parser rejects it; a number, and a truth value in an
  \<^verbatim>\<open>object\<close> column, is turned into text first, which never has the format. A column
  of dtype \<^verbatim>\<open>bool\<close> is refused as a whole with \<open>TypeError\<close>.
\<close>

fun to_datetime_obj :: "obj \<Rightarrow> error + date option" where
  "to_datetime_obj Missing = Inr None"
| "to_datetime_obj (Text s) =
     (if s \<in> set nat_strings then Inr None
      else (case strptime s of Some d \<Rightarrow> Inr (Some d) | None \<Rightarrow> Inl ValueError))"
| "to_datetime_obj (Truth _) = Inl ValueError"
| "to_datetime_obj (Day d) = Inr (Some d)"

fun to_datetime_num :: "num \<Rightarrow> error + date option" where
  "to_datetime_num NaN = Inr None"
| "to_datetime_num (Num _) = Inl ValueError"

definition to_datetime :: "series \<Rightarrow> error + series" where
  "to_datetime s =
     (case s of
        Object cells \<Rightarrow>
          (case sequence (map to_datetime_obj cells) of
             Inl e \<Rightarrow> Inl e | Inr ds \<Rightarrow> Inr (Datetime64 ds))
      | Float64 cells \<Rightarrow>
          (case sequence (map to_datetime_num cells) of
             Inl e \<Rightarrow> Inl e | Inr ds \<Rightarrow> Inr (Datetime64 ds))
      | Int64 cells \<Rightarrow> (if cells = [] then Inr (Datetime64 []) else Inl ValueError)
      | Bool cells \<Rightarrow> Inl TypeError
      | Datetime64 cells \<Rightarrow> Inr s)"

section \<open>The remote table\<close>

text \<open>
  A row of the remote table gives a value to each column name; \<open>VNull\<close> is SQL's
  \<^verbatim>\<open>NULL\<close>, which is what every missing marker is loaded as. The table is the list of
  its rows (their order cannot be observed). \<open>jobs\<close> records every call made to the
  BigQuery client, the latest last. The calls are taken to succeed: failures of the
  remote store are not modelled.
\<close>

datatype val = VNull | VStr string | VFloat rat | VInt int | VBool bool | VDate date

type_synonym row = "(string \<times> val) list"

datatype job = LoadJob "row list" | CountQuery | RewriteQuery

fun series_vals :: "series \<Rightarrow> val list" where
  "series_vals (Float64 cells) = map (\<lambda>c. case c of NaN \<Rightarrow> VNull | Num q \<Rightarrow> VFloat q) cells"
| "series_vals (Object cells) =
     map (\<lambda>c. case c of Text s \<Rightarrow> VStr s | Missing \<Rightarrow> VNull | Truth b \<Rightarrow> VBool b | Day d \<Rightarrow> VDate d)
         cells"
| "series_vals (Int64 cells) = map VInt cells"
| "series_vals (Bool cells) = map VBool cells"
| "series_vals (Datetime64 cells) = map (\<lambda>c. case c of None \<Rightarrow> VNull | Some d \<Rightarrow> VDate d) cells"

definition to_rows :: "frame \<Rightarrow> row list" where
  "to_rows data = map (\<lambda>i. map (\<lambda>(n, s). (n, series_vals s ! i)) (cols data)) [0..<nrows data]"

text \<open>
  The world the module runs in: the directory \<^verbatim>\<open>exports\<close> (\<open>None\<close> when it cannot be
  listed; otherwise its entries in the order \<^verbatim>\<open>os.listdir\<close> returns them, each with
  the file behind it, \<open>None\<close> when it cannot be opened), the clock (\<open>clock i\<close> is the
  date that reading number \<open>i\<close> of \<^verbatim>\<open>datetime.now()\<close> returns, \<open>reads\<close> counts the
  readings so far), the remote table, the calls made to the remote store and the
  lines printed.
\<close>

record world =
  exports :: "(string \<times> source_file option) list option"
  clock :: "nat \<Rightarrow> date"
  reads :: nat
  table :: "row list"
  jobs :: "job list"
  stdout :: "message list"

definition CSV_DIRECTORY :: string where
  "CSV_DIRECTORY = ''exports''"

section \<open>Processing one file\<close>

text \<open>
  \<^verbatim>\<open>data[name] = currency_to_float(data[name])\<close>. When the name stands for several
  columns, \<^verbatim>\<open>data[name]\<close> is a \<^verbatim>\<open>DataFrame\<close>, which has no \<^verbatim>\<open>dtype\<close>:
  \<open>AttributeError\<close>.
\<close>

definition convert_currency :: "string \<Rightarrow> frame \<Rightarrow> message list \<times> (error + frame)" where
  "convert_currency name data =
     (case getitem data name of
        Inl e \<Rightarrow> ([], Inl e)
      | Inr [s] \<Rightarrow>
          (case currency_to_float s of
             (out, Inl e) \<Rightarrow> (out, Inl e)
           | (out, Inr s') \<Rightarrow> (out, Inr (setitem data name s')))
      | Inr _ \<Rightarrow> ([], Inl AttributeError))"

text \<open>
  \<^verbatim>\<open>data['date'] = pd.to_datetime(data['date'], format='%d %b %Y')\<close>. Several columns
  of the name make \<^verbatim>\<open>to_datetime\<close> look for year, month and day columns:
  \<open>ValueError\<close>.
\<close>

definition convert_date :: "frame \<Rightarrow> error + frame" where
  "convert_date data =
     (case getitem data ''date'' of
        Inl e \<Rightarrow> Inl e
      | Inr [s] \<Rightarrow> (case to_datetime s of Inl e \<Rightarrow> Inl e | Inr s' \<Rightarrow> Inr (setitem data ''date'' s'))
      | Inr _ \<Rightarrow> Inl ValueError)"



text \<open>
  Lines 70 to 82 of \<^verbatim>\<open>process_csv_file\<close>, given the account name and the date read
  from the clock:
  \<^verbatim>\<open>data['account_name'] = account_name
  data['date_uploaded'] = datetime.now().date()
  data.columns = data.columns.str.replace(' ', '_').str.lower()
  data['paid_out'] = currency_to_float(data['paid_out'])
  data['paid_in'] = currency_to_float(data['paid_in'])
  data['balance'] = currency_to_float(data['balance'])
  data['date'] = pd.to_datetime(data['date'], format='%d %b %Y')\<close>
  The result is what was printed on the way and the frame, or the exception.
\<close>

definition normalize :: "string \<Rightarrow> date \<Rightarrow> frame \<Rightarrow> message list \<times> (error + frame)" where
  "normalize account_name today data0 =
     (let data1 = setitem data0 ''account_name'' (Object (replicate (nrows data0) (Text account_name)));
          data2 = setitem data1 ''date_uploaded'' (Object (replicate (nrows data1) (Day today)));
          data3 = rename_columns data2
      in case convert_currency ''paid_out'' data3 of
           (out1, Inl e) \<Rightarrow> (out1, Inl e)
         | (out1, Inr data4) \<Rightarrow>
             (case convert_currency ''paid_in'' data4 of
                (out2, Inl e) \<Rightarrow> (out1 @ out2, Inl e)
              | (out2, Inr data5) \<Rightarrow>
                  (case convert_currency ''balance'' data5 of
                     (out3, Inl e) \<Rightarrow> (out1 @ out2 @ out3, Inl e)
                   | (out3, Inr data6) \<Rightarrow> (out1 @ out2 @ out3, convert_date data6))))"

text \<open>
  \<^verbatim>\<open>client.load_table_from_dataframe(data, ..., job_config=job_config)\<close> followed by
  \<^verbatim>\<open>job.result()\<close>, with \<^verbatim>\<open>WRITE_APPEND\<close>: the rows of the frame are added to the
  table.
\<close>

definition load_table_from_dataframe :: "frame \<Rightarrow> world \<Rightarrow> world" where
  "load_table_from_dataframe data w =
     w\<lparr>table := table w @ to_rows data, jobs := jobs w @ [LoadJob (to_rows data)]\<rparr>"

text \<open>
  Lines 70 to 88 of \<^verbatim>\<open>process_csv_file\<close>: what the function does with the frame that
  \<^verbatim>\<open>read_csv\<close> returned. The clock is read once (line 71), the frame is normalized,
  loaded and the message printed. The result is the exception that ended the call
  (\<open>None\<close> when it returned) and the world as the call left it.
\<close>

definition upload_frame :: "string \<Rightarrow> string \<Rightarrow> frame \<Rightarrow> world \<Rightarrow> error option \<times> world" where
  "upload_frame file_path account_name data w =
     (let today = clock w (reads w);
          w1 = w\<lparr>reads := Suc (reads w)\<rparr>
      in (case normalize account_name today data of
            (out, Inl e) \<Rightarrow> (Some e, w1\<lparr>stdout := stdout w1 @ out\<rparr>)
          | (out, Inr data') \<Rightarrow>
              let w2 = load_table_from_dataframe data' (w1\<lparr>stdout := stdout w1 @ out\<rparr>)
              in (None, w2\<lparr>stdout := stdout w2 @ [Uploaded file_path]\<rparr>)))"

text \<open>
  \<^verbatim>\<open>process_csv_file(file_path)\<close>: the file is opened, the account name is taken from
  its first line, the rest is read with \<^verbatim>\<open>read_csv\<close> and goes through lines 70 to 88.
\<close>

definition process_csv_file :: "string \<Rightarrow> source_file option \<Rightarrow> world \<Rightarrow> error option \<times> world" where
  "process_csv_file file_path entry w =
     (case entry of
        None \<Rightarrow> (Some OSError, w)
      | Some f \<Rightarrow>
          (case extract_account_name (first_line f) of
             Inl e \<Rightarrow> (Some e, w)
           | Inr account_name \<Rightarrow>
               (case read_csv 4 f of
                  Inl e \<Rightarrow> (Some e, w)
                | Inr data \<Rightarrow> upload_frame file_path account_name data w)))"

section \<open>Removing duplicates\<close>

text \<open>
  \<^verbatim>\<open>get_table_row_count()\<close> runs \<^verbatim>\<open>SELECT COUNT(*)\<close> on the table.
\<close>

definition get_table_row_count :: "world \<Rightarrow> int \<times> world" where
  "get_table_row_count w = (int (length (table w)), w\<lparr>jobs := jobs w @ [CountQuery]\<rparr>)"

text \<open>
  \<^verbatim>\<open>def remove_duplicates():
      initial_count = get_table_row_count()
      query = CREATE OR REPLACE TABLE t AS SELECT DISTINCT * FROM t
      job = client.query(query)
      job.result()
      final_count = get_table_row_count()
      duplicates_removed = initial_count - final_count
      print(f'{duplicates_removed} duplicate rows were removed.')\<close>
  \<^verbatim>\<open>SELECT DISTINCT *\<close> keeps one row of every group of equal rows (\<^verbatim>\<open>NULL\<close> counts as
  equal to \<^verbatim>\<open>NULL\<close> there).
\<close>

definition remove_duplicates :: "world \<Rightarrow> world" where
  "remove_duplicates w =
     (let (initial_count, w1) = get_table_row_count w;
          w2 = w1\<lparr>table := remdups (table w1), jobs := jobs w1 @ [RewriteQuery]\<rparr>;
          (final_count, w3) = get_table_row_count w2;
          duplicates_removed = initial_count - final_count
      in w3\<lparr>stdout := stdout w3 @ [DuplicatesRemoved duplicates_removed]\<rparr>)"

section \<open>The run\<close>

text \<open>\<^verbatim>\<open>name.endswith(suffix)\<close>\<close>

definition endswith :: "string \<Rightarrow> string \<Rightarrow> bool" where
  "endswith name suffix =
     (length suffix \<le> length name \<and> drop (length name - length suffix) name = suffix)"

text \<open>
  The loop of lines 119 to 121 over the entries of the directory; an exception ends
  it, and the module with it.
  \<^verbatim>\<open>for filename in os.listdir(CSV_DIRECTORY):
      if filename.endswith('.csv'):
          process_csv_file(os.path.join(CSV_DIRECTORY, filename))\<close>
\<close>

fun process_all :: "(string \<times> source_file option) list \<Rightarrow> world \<Rightarrow> error option \<times> world" where
  "process_all [] w = (None, w)"
| "process_all ((filename, entry) # rest) w =
     (if endswith filename ''.csv'' then
        (case process_csv_file (CSV_DIRECTORY @ ''/'' @ filename) entry w of
           (Some e, w') \<Rightarrow> (Some e, w')
         | (None, w') \<Rightarrow> process_all rest w')
      else process_all rest w)"

text \<open>
  The module body from line 119 on: the loop, then
  \<^verbatim>\<open>print('All files have been processed and uploaded.')
  remove_duplicates()\<close>
\<close>

definition main :: "world \<Rightarrow> error option \<times> world" where
  "main w =
     (case exports w of
        None \<Rightarrow> (Some OSError, w)
      | Some entries \<Rightarrow>
          (case process_all entries w of
             (Some e, w') \<Rightarrow> (Some e, w')
           | (None, w') \<Rightarrow> (None, remove_duplicates (w'\<lparr>stdout := stdout w' @ [AllProcessed]\<rparr>))))"

section \<open>Observing a run\<close>

text \<open>
  What the calls recorded in \<open>jobs\<close> show: which of them are uploads, and the values
  the uploaded rows carry under \<^verbatim>\<open>date_uploaded\<close>. \<open>uploaded_paths\<close> reads off the
  printed lines the paths of the files reported as uploaded, in their order. \<open>stamped d js\<close> says that every row
  uploaded by a call in \<open>js\<close> has the date \<open>d\<close> in that column.
\<close>

fun is_load :: "job \<Rightarrow> bool" where
  "is_load (LoadJob _) = True"
| "is_load _ = False"

fun uploaded_rows :: "job \<Rightarrow> row list" where
  "uploaded_rows (LoadJob rows) = rows"
| "uploaded_rows _ = []"

fun uploaded_paths :: "message list \<Rightarrow> string list" where
  "uploaded_paths [] = []"
| "uploaded_paths (Uploaded p # ms) = p # uploaded_paths ms"
| "uploaded_paths (_ # ms) = uploaded_paths ms"

definition date_uploaded_of :: "job list \<Rightarrow> val list" where
  "date_uploaded_of js =
     concat (map (\<lambda>row. map snd (filter (\<lambda>(n, v). n = ''date_uploaded'') row))
                 (concat (map uploaded_rows js)))"

definition stamped :: "date \<Rightarrow> job list \<Rightarrow> bool" where
  "stamped d js =
     list_all (\<lambda>row. (''date_uploaded'', VDate d) \<in> set row) (concat (map uploaded_rows js))"

section \<open>Example inputs\<close>

text \<open>
  A statement file in the layout of the bank's export: the summary line, two more
  summary lines and a blank line (the four skipped lines), the header, and the given
  records. \<open>start\<close> is a world with an empty table in which nothing has happened yet.
\<close>

definition summary_line :: string where
  "summary_line = ''\"Statement\",\"My Account\",\"GBP\"'' @ [CHR 0x0A]"

definition statement_header :: "string list" where
  "statement_header =
     [''Date'', ''Transaction type'', ''Description'', ''Paid out'', ''Paid in'', ''Balance'']"

definition statement :: "string \<Rightarrow> string list list \<Rightarrow> source_file" where
  "statement line1 records =
     \<lparr>first_line = line1,
      later_lines = [[''Account Balance:'', pound @ ''1,234.56''],
                     [''Available Balance:'', pound @ ''1,234.56''],
                     [],
                     statement_header] @ records\<rparr>"

definition today_is :: "date \<Rightarrow> nat \<Rightarrow> date" where
  \<comment> \<open>a clock that shows the same date at every reading\<close>
  "today_is d i = d"

definition midnight_clock :: "nat \<Rightarrow> date" where
  \<comment> \<open>a run late on 31 January 2024: midnight passes after the first reading\<close>
  "midnight_clock i = (if i = 0 then Date 2024 1 31 else Date 2024 2 1)"

definition tesco_row :: "string list" where
  "tesco_row = [''05 Jan 2024'', ''Debit'', ''TESCO'', pound @ ''50.00'', [], pound @ ''1,184.56'']"



definition flagged_rows :: "string list list" where
  \<comment> \<open>two records whose paid-out fields are a truth value and nothing\<close>
  "flagged_rows =
     [[''05 Jan 2024'', ''Debit'', ''TESCO'', ''True'', [], pound @ ''1,184.56''],
      [''06 Jan 2024'', ''Debit'', ''TESCO'', [], [], pound @ ''1,184.56'']]"


definition tesco_uploaded :: "val \<Rightarrow> date \<Rightarrow> row" where
  \<comment> \<open>the table row of that transaction, with its date and the upload date\<close>
  "tesco_uploaded dt d =
     [(''date'', dt), (''transaction_type'', VStr ''Debit''),
      (''description'', VStr ''TESCO''), (''paid_out'', VFloat 50), (''paid_in'', VNull),
      (''balance'', VFloat 1184.56), (''account_name'', VStr ''My Account''),
      (''date_uploaded'', VDate d)]"

definition start :: "(string \<times> source_file option) list \<Rightarrow> (nat \<Rightarrow> date) \<Rightarrow> world" where
  "start entries clk =
     \<lparr>exports = Some entries, clock = clk, reads = 0, table = [], jobs = [], stdout = []\<rparr>"

section \<open>The account name\<close>

lemma split_on_not_Nil: "split_on c s \<noteq> []"
  by (induction s) (auto split: list.splits)

lemma split_on_no_sep: "c \<notin> set s \<Longrightarrow> split_on c s = [s]"
  by (induction s) auto

lemma split_on_append: "c \<notin> set a \<Longrightarrow> split_on c (a @ c # r) = a # split_on c r"
  by (induction a) auto

lemma length_split_on: "length (split_on c s) = Suc (count_list s c)"
proof (induction s)
  case Nil
  show ?case by simp
next
  case (Cons x xs)
  then show ?case
    by (cases "split_on c xs") auto
qed

lemma split_on_single_iff: "length (split_on c s) < 2 \<longleftrightarrow> c \<notin> set s"
proof -
  have "count_list s c = 0 \<longleftrightarrow> c \<notin> set s"
    by (simp add: count_list_0_iff)
  then show ?thesis
    by (simp add: length_split_on less_Suc_eq)
qed

text \<open>
  C2. When the first line has a second comma-separated field \<open>b\<close> (the text between the
  first comma and the next one, or the end of the line), the account name is \<open>b\<close> with
  its leading and trailing double quotes removed, whatever the first field \<open>a\<close> and the
  rest of the line are. When the line has fewer than two fields (no comma at all), the
  extraction raises \<open>IndexError\<close> and returns no value.
\<close>

theorem extract_account_name_second_field:
  "(comma \<notin> set a \<and> comma \<notin> set b \<longrightarrow>
      extract_account_name (a @ comma # b) = Inr (strip dquote b) \<and>
      extract_account_name (a @ comma # b @ comma # rest) = Inr (strip dquote b)) \<and>
   (length (split_on comma row) < 2 \<longrightarrow> extract_account_name row = Inl IndexError) \<and>
   (length (split_on comma row) < 2 \<longleftrightarrow> comma \<notin> set row)"
proof (intro conjI impI)
  assume ab: "comma \<notin> set a \<and> comma \<notin> set b"
  then show "extract_account_name (a @ comma # b) = Inr (strip dquote b)"
    by (simp add: extract_account_name_def split_on_append split_on_no_sep)
  from ab have "split_on comma (a @ comma # b @ comma # rest) = a # b # split_on comma rest"
    by (simp add: split_on_append)
  then show "extract_account_name (a @ comma # b @ comma # rest) = Inr (strip dquote b)"
    by (simp add: extract_account_name_def)
next
  assume "length (split_on comma row) < 2"
  then have "comma \<notin> set row"
    by (simp add: split_on_single_iff)
  then show "extract_account_name row = Inl IndexError"
    by (simp add: extract_account_name_def split_on_no_sep)
next
  show "length (split_on comma row) < 2 \<longleftrightarrow> comma \<notin> set row"
    by (rule split_on_single_iff)
qed

theorem extract_account_name_second_field_witness:
  "comma \<notin> set ''\"Statement\"'' \<and> comma \<notin> set ''\"My Account\"'' \<and>
   extract_account_name (''\"Statement\",\"My Account\",\"GBP\"'' @ [CHR 0x0A]) = Inr ''My Account'' \<and>
   length (split_on comma ''Statement'') < 2 \<and>
   extract_account_name ''Statement'' = Inl IndexError"
  using extract_account_name_second_field
    [of "''\"Statement\"''" "''\"My Account\"''" "''\"GBP\"'' @ [CHR 0x0A]" "''Statement''"]
  by (simp add: comma_def dquote_def strip_def)

section \<open>Currency amounts\<close>

lemma clean_Cons: "clean (c # s) = (if keep c then c # clean s else clean s)"
  by (simp add: clean_def)

lemma clean_Nil: "clean [] = []"
  by (simp add: clean_def)

lemma clean_append: "clean (a @ b) = clean a @ clean b"
  by (simp add: clean_def)

lemma clean_pound: "clean pound = []"
  by (simp add: clean_def keep_def pound_def)

lemma keep_digit: "is_digit c \<Longrightarrow> keep c"
  by (auto simp: is_digit_def keep_def)

lemma digit_not_stop: "is_digit c \<Longrightarrow> c \<noteq> CHR ''.''"
  by (auto simp: is_digit_def)

lemma clean_digits: "list_all is_digit s \<Longrightarrow> clean s = s"
  by (induction s) (auto simp: clean_Nil clean_Cons keep_digit)

lemma keep_not_sign: "keep c \<Longrightarrow> c \<noteq> CHR ''-'' \<and> c \<noteq> CHR ''+''"
  by (auto simp: keep_def)

lemma unsigned_decimal_point:
  assumes "list_all is_digit a" "list_all is_digit c" "a \<noteq> []"
  shows "unsigned_decimal (a @ CHR ''.'' # c) =
           Some (of_nat (digits_val a) + of_nat (digits_val c) / 10 ^ length c)"
proof -
  have "\<forall>x\<in>set a. x \<noteq> CHR ''.''"
    using assms(1) by (auto simp: list_all_iff digit_not_stop)
  then have "takeWhile (\<lambda>x. x \<noteq> CHR ''.'') (a @ CHR ''.'' # c) = a"
    and "dropWhile (\<lambda>x. x \<noteq> CHR ''.'') (a @ CHR ''.'' # c) = CHR ''.'' # c"
    by (simp_all add: takeWhile_append2 dropWhile_append2)
  then show ?thesis
    using assms by (simp add: unsigned_decimal_def)
qed

lemma unsigned_decimal_nonneg: "unsigned_decimal s = Some q \<Longrightarrow> 0 \<le> q"
  by (auto simp: unsigned_decimal_def Let_def split: if_splits)

lemma parse_decimal_clean: "parse_decimal (clean s) = unsigned_decimal (clean s)"
proof (cases "clean s")
  case Nil
  then show ?thesis by (simp add: parse_decimal_def unsigned_decimal_def)
next
  case (Cons c r)
  then have "c \<in> set (clean s)" by simp
  then have "keep c" by (simp add: clean_def)
  then show ?thesis
    using Cons keep_not_sign by (simp add: parse_decimal_def)
qed

lemma parse_whole_clean:
  "parse_whole (clean s) =
     (if clean s \<noteq> [] \<and> list_all is_digit (clean s) then Some (int (digits_val (clean s))) else None)"
proof (cases "clean s")
  case Nil
  then show ?thesis by (simp add: parse_whole_def)
next
  case (Cons c r)
  then have "c \<in> set (clean s)" by simp
  then have "keep c" by (simp add: clean_def)
  then show ?thesis
    using Cons keep_not_sign by (simp add: parse_whole_def)
qed

lemma whole_is_decimal:
  assumes "s \<noteq> []" "list_all is_digit s"
  shows "unsigned_decimal s \<noteq> None"
proof -
  have "\<forall>x\<in>set s. x \<noteq> CHR ''.''"
    using assms(2) by (auto simp: list_all_iff digit_not_stop)
  then have tw: "takeWhile (\<lambda>x. x \<noteq> CHR ''.'') s = s"
    and dw: "dropWhile (\<lambda>x. x \<noteq> CHR ''.'') s = []"
    by simp_all
  show ?thesis
    using assms by (simp add: unsigned_decimal_def tw dw)
qed

lemma parse_whole_clean_nonneg: "parse_whole (clean s) = Some n \<Longrightarrow> 0 \<le> n"
proof (cases "clean s")
  case Nil
  assume "parse_whole (clean s) = Some n"
  with Nil show ?thesis by (simp add: parse_whole_def)
next
  case (Cons c r)
  assume p: "parse_whole (clean s) = Some n"
  from Cons have "c \<in> set (clean s)" by simp
  then have "keep c" by (simp add: clean_def)
  then show ?thesis
    using Cons keep_not_sign p by (auto simp: parse_whole_def split: if_splits)
qed

lemma those_Some_set: "those xs = Some ys \<Longrightarrow> y \<in> set ys \<Longrightarrow> Some y \<in> set xs"
  by (induction xs arbitrary: ys) (auto split: option.splits)

lemma those_Some_length: "those xs = Some ys \<Longrightarrow> length ys = length xs"
  by (induction xs arbitrary: ys) (auto split: option.splits)

lemma str_accessor_ok_Text: "str_accessor_ok (map Text xs)"
  by (cases xs) (auto simp: str_accessor_ok_def)

lemma str_accessor_ok_Text2: "str_accessor_ok (map (\<lambda>s. Text (f s)) xs)"
  by (cases xs) (auto simp: str_accessor_ok_def)

lemma currency_nonneg:
  assumes "currency_to_float (Object cells) = (out, Inr r)"
  shows "(\<forall>q. VFloat q \<in> set (series_vals r) \<longrightarrow> 0 \<le> q) \<and>
         (\<forall>n. VInt n \<in> set (series_vals r) \<longrightarrow> 0 \<le> n)"
proof (cases "those (map (\<lambda>c. Option.bind c parse_whole) (map str_replace_cell cells))")
  case None
  with assms have r: "r = Float64 (map numeric_cell (map str_replace_cell cells))"
    by (auto simp: currency_to_float_def str_replace_def to_numeric_def split: if_splits)
  have "0 \<le> q" if "numeric_cell (str_replace_cell c) = Num q" for q c
  proof (cases c)
    case (Text s)
    with that have "parse_decimal (clean s) = Some q"
      by (auto simp: numeric_cell_def split: option.splits)
    then show ?thesis
      by (simp add: parse_decimal_clean unsigned_decimal_nonneg)
  qed (use that in \<open>auto simp: numeric_cell_def\<close>)
  then show ?thesis
    unfolding r by (auto split: num.splits)
next
  case (Some ns)
  with assms have r: "r = Int64 ns"
    by (auto simp: currency_to_float_def str_replace_def to_numeric_def split: if_splits)
  have "0 \<le> n" if "n \<in> set ns" for n
  proof -
    from those_Some_set [OF Some that]
    obtain c where "Option.bind (str_replace_cell c) parse_whole = Some n"
      by auto
    then obtain s where "parse_whole (clean s) = Some n"
      by (cases c) auto
    then show ?thesis by (rule parse_whole_clean_nonneg)
  qed
  then show ?thesis
    unfolding r by auto
qed

lemma currency_of_cleaned:
  assumes "clean s = a @ CHR ''.'' # c" "list_all is_digit a" "list_all is_digit c" "a \<noteq> []"
  shows "currency_to_float (Object [Text s]) =
           ([], Inr (Float64 [Num (of_nat (digits_val a) + of_nat (digits_val c) / 10 ^ length c)]))"
proof -
  obtain x r where xr: "a = x # r" "is_digit x"
    using assms(2,4) by (cases a) auto
  then have x: "x \<noteq> CHR ''-''" "x \<noteq> CHR ''+''"
    using keep_digit keep_not_sign by blast+
  have "\<not> list_all is_digit (a @ CHR ''.'' # c)"
    by (simp add: is_digit_def)
  then have pw: "parse_whole (clean s) = None"
    using xr x assms(1) by (simp add: parse_whole_def)
  have pd: "parse_decimal (clean s) =
          Some (of_nat (digits_val a) + of_nat (digits_val c) / 10 ^ length c)"
    using unsigned_decimal_point [OF assms(2,3,4)] xr x assms(1)
    by (simp add: parse_decimal_def)
  show ?thesis
    using pw pd
    by (simp add: currency_to_float_def str_replace_def str_accessor_ok_def to_numeric_def
        numeric_cell_def)
qed

text \<open>
  C1. A textual currency value of the form pound sign, digits, comma, digits, full stop,
  digits is cleaned to its digits and the full stop and read as that decimal number:
  the pound sign followed by \<^verbatim>\<open>1,234.56\<close> gives 1234.56, and a minus sign, the pound
  sign and \<^verbatim>\<open>12.34\<close> give 12.34. A minus sign is not a digit or a full stop, so it is
  stripped with the rest: a column of amounts written with a leading minus gives the
  same result as the column without it, and no number that comes out of a textual
  column is negative.
\<close>

theorem currency_to_float_drops_sign:
  "currency_to_float (Object [Text (pound @ ''1,234.56'')]) = ([], Inr (Float64 [Num 1234.56])) \<and>
   currency_to_float (Object [Text (''-'' @ pound @ ''12.34'')]) = ([], Inr (Float64 [Num 12.34])) \<and>
   (list_all is_digit a \<and> list_all is_digit b \<and> list_all is_digit c \<and> a \<noteq> [] \<longrightarrow>
      currency_to_float (Object [Text (pound @ a @ comma # b @ CHR ''.'' # c)]) =
        ([], Inr (Float64 [Num (of_nat (digits_val (a @ b)) + of_nat (digits_val c) / 10 ^ length c)]))) \<and>
   currency_to_float (Object (map (\<lambda>s. Text (CHR ''-'' # s)) amounts)) =
     currency_to_float (Object (map Text amounts)) \<and>
   (currency_to_float (Object cells) = (out, Inr r) \<longrightarrow>
      (\<forall>q. VFloat q \<in> set (series_vals r) \<longrightarrow> 0 \<le> q) \<and>
      (\<forall>n. VInt n \<in> set (series_vals r) \<longrightarrow> 0 \<le> n))"
proof (intro conjI impI)
  have "clean (pound @ ''1,234.56'') = ''1234'' @ CHR ''.'' # ''56''"
    by (simp add: clean_def keep_def pound_def)
  from currency_of_cleaned [OF this]
  show "currency_to_float (Object [Text (pound @ ''1,234.56'')]) = ([], Inr (Float64 [Num 1234.56]))"
    by (simp add: is_digit_def digits_val_def digit_val_def)
  have "clean (''-'' @ pound @ ''12.34'') = ''12'' @ CHR ''.'' # ''34''"
    by (simp add: clean_def keep_def pound_def)
  from currency_of_cleaned [OF this]
  show "currency_to_float (Object [Text (''-'' @ pound @ ''12.34'')]) = ([], Inr (Float64 [Num 12.34]))"
    by (simp add: is_digit_def digits_val_def digit_val_def)
next
  assume d: "list_all is_digit a \<and> list_all is_digit b \<and> list_all is_digit c \<and> a \<noteq> []"
  then have "clean (pound @ a @ comma # b @ CHR ''.'' # c) = (a @ b) @ CHR ''.'' # c"
    by (simp add: clean_append clean_pound clean_Cons clean_digits keep_def comma_def)
  from currency_of_cleaned [OF this] d
  show "currency_to_float (Object [Text (pound @ a @ comma # b @ CHR ''.'' # c)]) =
        ([], Inr (Float64 [Num (of_nat (digits_val (a @ b)) + of_nat (digits_val c) / 10 ^ length c)]))"
    by simp
next
  have "map str_replace_cell (map (\<lambda>s. Text (CHR ''-'' # s)) amounts) =
        map str_replace_cell (map Text amounts)"
    by (simp add: clean_Cons keep_def)
  then show "currency_to_float (Object (map (\<lambda>s. Text (CHR ''-'' # s)) amounts)) =
     currency_to_float (Object (map Text amounts))"
    using str_accessor_ok_Text [of amounts] str_accessor_ok_Text2 [of "\<lambda>s. CHR ''-'' # s" amounts]
    by (simp only: currency_to_float_def str_replace_def series.case if_True)
next
  assume "currency_to_float (Object cells) = (out, Inr r)"
  then have nn: "(\<forall>q. VFloat q \<in> set (series_vals r) \<longrightarrow> 0 \<le> q) \<and>
      (\<forall>n. VInt n \<in> set (series_vals r) \<longrightarrow> 0 \<le> n)"
    by (rule currency_nonneg)
  from nn show "\<forall>q. VFloat q \<in> set (series_vals r) \<longrightarrow> 0 \<le> q"
    by (rule conjunct1)
  from nn show "\<forall>n. VInt n \<in> set (series_vals r) \<longrightarrow> 0 \<le> n"
    by (rule conjunct2)
qed

theorem currency_to_float_drops_sign_witness:
  "list_all is_digit ''1'' \<and> list_all is_digit ''234'' \<and> list_all is_digit ''56'' \<and>
   currency_to_float (Object [Text (pound @ ''1,234.56'')]) = ([], Inr (Float64 [Num 1234.56])) \<and>
   currency_to_float (Object [Text ''-12.34'', Text ''-7'']) =
     currency_to_float (Object [Text ''12.34'', Text ''7'']) \<and>
   currency_to_float (Object [Text ''-12.34'', Text ''-7'']) = ([], Inr (Float64 [Num 12.34, Num 7])) \<and>
   (0::rat) \<le> 12.34"
proof -
  have e: "currency_to_float (Object [Text ''-12.34'', Text ''-7'']) = ([], Inr (Float64 [Num 12.34, Num 7]))"
    by code_simp
  have d: "list_all is_digit ''1'' \<and> list_all is_digit ''234'' \<and> list_all is_digit ''56''"
    by (simp add: is_digit_def)
  show ?thesis
    using d e currency_to_float_drops_sign
      [of "''1''" "''234''" "''56''" "[''12.34'', ''7'']" "[Text ''-12.34'', Text ''-7'']" "[]"
          "Float64 [Num 12.34, Num 7]"]
    by simp
qed

section \<open>Columns that the currency normalizer accepts\<close>

lemma those_None_nth:
  "i < length xs \<Longrightarrow> xs ! i = None \<Longrightarrow> those xs = None"
proof (induction xs arbitrary: i)
  case Nil
  then show ?case by simp
next
  case (Cons x xs)
  then show ?case
    by (cases i) (auto split: option.splits)
qed

text \<open>
  An \<^verbatim>\<open>object\<close> column that the \<^verbatim>\<open>.str\<close> accessor accepts is cleaned and parsed
  without an error and without a diagnostic, and a string that does not parse after the
  cleaning becomes \<open>NaN\<close>; a \<^verbatim>\<open>float64\<close> column is returned as it is; a column of
  any other dtype is returned as it is after the diagnostic.
\<close>

lemma currency_to_float_on_accepted_columns:
  "(str_accessor_ok cells \<longrightarrow>
      (\<exists>r. currency_to_float (Object cells) = ([], Inr r) \<and>
           length (series_vals r) = length cells \<and>
           (\<forall>i t. i < length cells \<and> cells ! i = Text t \<and> parse_decimal (clean t) = None \<longrightarrow>
                  (\<exists>ns. r = Float64 ns \<and> ns ! i = NaN)))) \<and>
   currency_to_float (Float64 ns) = ([], Inr (Float64 ns)) \<and>
   ((\<forall>ns. s \<noteq> Float64 ns) \<and> (\<forall>cells. s \<noteq> Object cells) \<longrightarrow>
      currency_to_float s = ([NotStringOrFloat (dtype s)], Inr s))"
proof (intro conjI impI)
  assume ok: "str_accessor_ok cells"
  let ?cleaned = "map str_replace_cell cells"
  show "\<exists>r. currency_to_float (Object cells) = ([], Inr r) \<and>
           length (series_vals r) = length cells \<and>
           (\<forall>i t. i < length cells \<and> cells ! i = Text t \<and> parse_decimal (clean t) = None \<longrightarrow>
                  (\<exists>ns. r = Float64 ns \<and> ns ! i = NaN))"
  proof (cases "those (map (\<lambda>c. Option.bind c parse_whole) ?cleaned)")
    case None
    then have "currency_to_float (Object cells) = ([], Inr (Float64 (map numeric_cell ?cleaned)))"
      using ok by (simp add: currency_to_float_def str_replace_def to_numeric_def)
    moreover have "map numeric_cell ?cleaned ! i = NaN"
      if "i < length cells" "cells ! i = Text t" "parse_decimal (clean t) = None" for i t
      using that by (simp add: numeric_cell_def)
    ultimately show ?thesis by auto
  next
    case (Some ws)
    then have r: "currency_to_float (Object cells) = ([], Inr (Int64 ws))"
      using ok by (simp add: currency_to_float_def str_replace_def to_numeric_def)
    have len: "length ws = length cells"
      using those_Some_length [OF Some] by simp
    have False if i: "i < length cells" "cells ! i = Text t" "parse_decimal (clean t) = None" for i t
    proof -
      have "parse_whole (clean t) = None"
      proof (rule ccontr)
        assume "parse_whole (clean t) \<noteq> None"
        then have "clean t \<noteq> []" "list_all is_digit (clean t)"
          by (simp_all add: parse_whole_clean split: if_splits)
        then have "unsigned_decimal (clean t) \<noteq> None"
          by (rule whole_is_decimal)
        with i(3) show False
          by (simp add: parse_decimal_clean)
      qed
      then have "map (\<lambda>c. Option.bind c parse_whole) ?cleaned ! i = None"
        using i by simp
      then have "those (map (\<lambda>c. Option.bind c parse_whole) ?cleaned) = None"
        using i(1) by (intro those_None_nth [of i]) simp_all
      with Some show False by simp
    qed
    with r len show ?thesis by auto
  qed
next
  show "currency_to_float (Float64 ns) = ([], Inr (Float64 ns))"
    by (simp add: currency_to_float_def)
next
  assume "(\<forall>ns. s \<noteq> Float64 ns) \<and> (\<forall>cells. s \<noteq> Object cells)"
  then show "currency_to_float s = ([NotStringOrFloat (dtype s)], Inr s)"
    by (cases s) (simp_all add: currency_to_float_def)
qed

section \<open>Removing duplicates twice\<close>

text \<open>
  C3. Running \<^verbatim>\<open>remove_duplicates\<close> a second time right after the first leaves the table,
  and so its row count, as the first run left it, and the second run reports 0 rows
  removed.
\<close>

theorem remove_duplicates_idempotent:
  "table (remove_duplicates (remove_duplicates w)) = table (remove_duplicates w) \<and>
   length (table (remove_duplicates (remove_duplicates w))) = length (table (remove_duplicates w)) \<and>
   stdout (remove_duplicates (remove_duplicates w)) =
     stdout (remove_duplicates w) @ [DuplicatesRemoved 0]"
  by (simp add: remove_duplicates_def get_table_row_count_def remdups_remdups)

theorem remove_duplicates_idempotent_witness:
  "table (remove_duplicates (remove_duplicates ((start [] (today_is (Date 2024 1 5)))\<lparr>table := [[(''description'', VStr ''TESCO'')], [(''description'', VStr ''TESCO'')]]\<rparr>))) =
     [[(''description'', VStr ''TESCO'')]] \<and>
   stdout (remove_duplicates (remove_duplicates ((start [] (today_is (Date 2024 1 5)))\<lparr>table := [[(''description'', VStr ''TESCO'')], [(''description'', VStr ''TESCO'')]]\<rparr>))) =
     [DuplicatesRemoved 1, DuplicatesRemoved 0]"
  using remove_duplicates_idempotent
    [of "(start [] (today_is (Date 2024 1 5)))\<lparr>table := [[(''description'', VStr ''TESCO'')], [(''description'', VStr ''TESCO'')]]\<rparr>"]
  by (simp add: remove_duplicates_def get_table_row_count_def start_def)

text \<open>
  C10. One run of \<^verbatim>\<open>remove_duplicates\<close> never increases the row count of the table, and
  the number it reports, the count before minus the count after, is never negative.
\<close>

theorem remove_duplicates_never_grows:
  "length (table (remove_duplicates w)) \<le> length (table w) \<and>
   (\<exists>n. stdout (remove_duplicates w) = stdout w @ [DuplicatesRemoved n] \<and>
        n = int (length (table w)) - int (length (table (remove_duplicates w))) \<and> 0 \<le> n)"
  by (simp add: remove_duplicates_def get_table_row_count_def length_remdups_leq)

theorem remove_duplicates_never_grows_witness:
  "length (table (remove_duplicates ((start [] (today_is (Date 2024 1 5)))\<lparr>table := [[(''description'', VStr ''TESCO'')], [(''description'', VStr ''TESCO'')]]\<rparr>))) \<le> 2 \<and>
   stdout (remove_duplicates ((start [] (today_is (Date 2024 1 5)))\<lparr>table := [[(''description'', VStr ''TESCO'')], [(''description'', VStr ''TESCO'')]]\<rparr>)) =
     [DuplicatesRemoved 1]"
  using remove_duplicates_never_grows
    [of "(start [] (today_is (Date 2024 1 5)))\<lparr>table := [[(''description'', VStr ''TESCO'')], [(''description'', VStr ''TESCO'')]]\<rparr>"]
  by (simp add: remove_duplicates_def get_table_row_count_def start_def)

section \<open>The suffix filter\<close>

lemma process_all_filter:
  "process_all (filter (\<lambda>(n, _). endswith n ''.csv'') entries) w = process_all entries w"
  by (induction entries arbitrary: w) (auto split: prod.splits option.splits)

lemma process_all_none: "\<forall>(n, e) \<in> set entries. \<not> endswith n ''.csv'' \<Longrightarrow> process_all entries w = (None, w)"
  by (induction entries) auto

section \<open>The example files, processed\<close>

lemma first_line_statement: "first_line (statement line1 records) = line1"
  by (simp add: statement_def)

lemma summary_line_name: "extract_account_name summary_line = Inr ''My Account''"
  by code_simp

lemma no_comma_name: "extract_account_name ''Statement'' = Inl IndexError"
  by code_simp

lemma tesco_frame:
  "read_csv 4 (statement line1 [tesco_row]) =
     Inr \<lparr>nrows = Suc 0,
          cols = [(''Date'', Object [Text ''05 Jan 2024'']),
                  (''Transaction type'', Object [Text ''Debit'']),
                  (''Description'', Object [Text ''TESCO'']),
                  (''Paid out'', Object [Text (pound @ ''50.00'')]),
                  (''Paid in'', Float64 [NaN]),
                  (''Balance'', Object [Text (pound @ ''1,184.56'')])]\<rparr>"
  by code_simp


lemmas evaluation =
  normalize_def rename_columns_def rename_column_def lower_char_def setitem_def
  convert_currency_def getitem_def currency_to_float_def str_replace_def str_accessor_ok_def
  clean_def keep_def pound_def to_numeric_def parse_whole_def is_digit_def numeric_cell_def
  parse_decimal_def unsigned_decimal_def digits_val_def digit_val_def convert_date_def
  to_datetime_def nat_strings_def strptime_def is_space_def month_number_def month_names_def
  days_in_month_def leap_year_def date_le_def to_rows_def tesco_uploaded_def Let_def

lemma tesco_normalize:
  "normalize ''My Account'' d
     \<lparr>nrows = Suc 0,
          cols = [(''Date'', Object [Text ''05 Jan 2024'']),
                  (''Transaction type'', Object [Text ''Debit'']),
                  (''Description'', Object [Text ''TESCO'']),
                  (''Paid out'', Object [Text (pound @ ''50.00'')]),
                  (''Paid in'', Float64 [NaN]),
                  (''Balance'', Object [Text (pound @ ''1,184.56'')])]\<rparr> =
   ([], Inr \<lparr>nrows = Suc 0,
          cols = [(''date'', Datetime64 [Some (Date 2024 1 5)]),
                  (''transaction_type'', Object [Text ''Debit'']),
                  (''description'', Object [Text ''TESCO'']),
                  (''paid_out'', Float64 [Num 50]),
                  (''paid_in'', Float64 [NaN]),
                  (''balance'', Float64 [Num 1184.56]),
                  (''account_name'', Object [Text ''My Account'']),
                  (''date_uploaded'', Object [Day d])]\<rparr>)"
  by (simp add: evaluation)


lemma tesco_upload:
  "process_csv_file p (Some (statement summary_line [tesco_row])) w =
     (None, w\<lparr>reads := Suc (reads w),
               table := table w @ [tesco_uploaded (VDate (Date 2024 1 5)) (clock w (reads w))],
               jobs := jobs w @ [LoadJob [tesco_uploaded (VDate (Date 2024 1 5)) (clock w (reads w))]],
               stdout := stdout w @ [Uploaded p]\<rparr>)"
  by (simp add: process_csv_file_def upload_frame_def first_line_statement summary_line_name tesco_frame
      tesco_normalize to_rows_def tesco_uploaded_def load_table_from_dataframe_def Let_def)


lemma no_comma_upload:
  "process_csv_file p (Some (statement ''Statement'' records)) w = (Some IndexError, w)"
  by (simp add: process_csv_file_def upload_frame_def first_line_statement no_comma_name)

lemma csv_names: "endswith ''a.csv'' ''.csv''" "endswith ''b.csv'' ''.csv''"
  by (simp_all add: endswith_def)

section \<open>A column of truth values with a gap\<close>

lemma flagged_frame:
  "read_csv 4 (statement line1 flagged_rows) =
     Inr \<lparr>nrows = Suc (Suc 0),
          cols = [(''Date'', Object [Text ''05 Jan 2024'', Text ''06 Jan 2024'']),
                  (''Transaction type'', Object [Text ''Debit'', Text ''Debit'']),
                  (''Description'', Object [Text ''TESCO'', Text ''TESCO'']),
                  (''Paid out'', Object [Truth True, Missing]),
                  (''Paid in'', Float64 [NaN, NaN]),
                  (''Balance'', Object [Text (pound @ ''1,184.56''), Text (pound @ ''1,184.56'')])]\<rparr>"
  by code_simp

lemma flagged_normalize:
  "normalize ''My Account'' d
     \<lparr>nrows = Suc (Suc 0),
          cols = [(''Date'', Object [Text ''05 Jan 2024'', Text ''06 Jan 2024'']),
                  (''Transaction type'', Object [Text ''Debit'', Text ''Debit'']),
                  (''Description'', Object [Text ''TESCO'', Text ''TESCO'']),
                  (''Paid out'', Object [Truth True, Missing]),
                  (''Paid in'', Float64 [NaN, NaN]),
                  (''Balance'', Object [Text (pound @ ''1,184.56''), Text (pound @ ''1,184.56'')])]\<rparr> =
   ([], Inl AttributeError)"
  by (simp add: evaluation)

text \<open>
  C7. The currency normalizer does raise. A column of truth values without a gap has
  the dtype \<^verbatim>\<open>bool\<close>: it is neither \<^verbatim>\<open>float64\<close> nor \<^verbatim>\<open>object\<close>, the diagnostic is
  printed and the column is returned as it is, which is what the claim says of a column
  that is neither numeric nor textual. The same kind of column with a gap has the dtype
  \<^verbatim>\<open>object\<close>, although it holds no text: the test of line 50 sends it to the branch
  written for strings, and there the \<^verbatim>\<open>.str\<close> accessor raises \<open>AttributeError\<close>. A
  statement whose paid-out fields are \<^verbatim>\<open>True\<close> in one record and empty in the next is
  read as such a column, and processing the file ends with that error.
\<close>

theorem currency_to_float_raises_on_truth_values:
  "currency_to_float (Bool bs) = ([NotStringOrFloat ''bool''], Inr (Bool bs)) \<and>
   currency_to_float (Object [Truth True, Missing]) = ([], Inl AttributeError) \<and>
   process_csv_file ''exports/a.csv'' (Some (statement summary_line flagged_rows))
       (start [] (today_is (Date 2024 1 5))) =
     (Some AttributeError, (start [] (today_is (Date 2024 1 5)))\<lparr>reads := 1\<rparr>)"
  by (simp add: currency_to_float_def str_replace_def str_accessor_ok_def dtype_def
      process_csv_file_def upload_frame_def first_line_statement summary_line_name
      flagged_frame flagged_normalize Let_def start_def)

section \<open>The deduplicator in a run\<close>

lemma process_csv_file_effect:
  assumes "process_csv_file p entry w = (r, w')"
  shows "exports w' = exports w \<and> clock w' = clock w \<and>
         (r \<noteq> None \<longrightarrow> jobs w' = jobs w \<and> table w' = table w) \<and>
         (r = None \<longrightarrow> (\<exists>rows. jobs w' = jobs w @ [LoadJob rows] \<and> table w' = table w @ rows))"
  using assms
  by (auto simp: process_csv_file_def upload_frame_def load_table_from_dataframe_def Let_def
      split: option.splits sum.splits prod.splits)

lemma process_all_jobs:
  "process_all entries w = (r, w') \<Longrightarrow>
     \<exists>ls. jobs w' = jobs w @ ls \<and> list_all is_load ls \<and>
          (r = None \<longrightarrow> length ls = length (filter (\<lambda>(n, _). endswith n ''.csv'') entries))"
proof (induction entries arbitrary: w)
  case Nil
  then show ?case by simp
next
  case (Cons entry entries)
  obtain filename src where entry: "entry = (filename, src)"
    by (cases entry)
  show ?case
  proof (cases "endswith filename ''.csv''")
    case False
    with Cons entry show ?thesis by simp
  next
    case True
    obtain r1 w1 where p: "process_csv_file (CSV_DIRECTORY @ ''/'' @ filename) src w = (r1, w1)"
      by (cases "process_csv_file (CSV_DIRECTORY @ ''/'' @ filename) src w")
    note eff = process_csv_file_effect [OF p]
    show ?thesis
    proof (cases r1)
      case (Some e)
      with Cons.prems entry True p have "r = Some e" "w' = w1"
        by simp_all
      with eff Some show ?thesis by simp
    next
      case None
      with Cons.prems entry True p have rest: "process_all entries w1 = (r, w')"
        by simp
      from eff None obtain rows where rows: "jobs w1 = jobs w @ [LoadJob rows]"
        by auto
      from Cons.IH [OF rest] obtain ls where
        ls: "jobs w' = jobs w1 @ ls" "list_all is_load ls"
          "r = None \<longrightarrow> length ls = length (filter (\<lambda>(n, _). endswith n ''.csv'') entries)"
        by auto
      have "jobs w' = jobs w @ (LoadJob rows # ls)"
        using rows ls(1) by simp
      moreover have "list_all is_load (LoadJob rows # ls)"
        using ls(2) by simp
      moreover have "r = None \<longrightarrow> length (LoadJob rows # ls) =
          length (filter (\<lambda>(n, _). endswith n ''.csv'') (entry # entries))"
        using ls(3) entry True by simp
      ultimately show ?thesis by blast
    qed
  qed
qed

lemma remove_duplicates_jobs:
  "jobs (remove_duplicates w) = jobs w @ [CountQuery, RewriteQuery, CountQuery]"
  by (simp add: remove_duplicates_def get_table_row_count_def)

text \<open>
  C4, as stated, fails for a run that aborts: the first file is uploaded, the second
  has a summary line without a comma and raises \<open>IndexError\<close>, which ends the module;
  \<^verbatim>\<open>remove_duplicates\<close> is never called, and the uploaded row stays in the table.
\<close>

theorem deduplicator_skipped_on_abort_counterexample:
  "fst (main (start [(''a.csv'', Some (statement summary_line [tesco_row])),
                     (''b.csv'', Some (statement ''Statement'' []))]
                    (today_is (Date 2024 1 5)))) = Some IndexError \<and>
   count_list (jobs (snd (main (start [(''a.csv'', Some (statement summary_line [tesco_row])),
                     (''b.csv'', Some (statement ''Statement'' []))]
                    (today_is (Date 2024 1 5)))))) RewriteQuery = 0 \<and>
   length (table (snd (main (start [(''a.csv'', Some (statement summary_line [tesco_row])),
                     (''b.csv'', Some (statement ''Statement'' []))]
                    (today_is (Date 2024 1 5)))))) = 1"
  by (simp add: main_def start_def csv_names tesco_upload no_comma_upload)

text \<open>
  C4, amended. In every run in which the directory can be listed and every \<^verbatim>\<open>.csv\<close>
  file is processed without an error, the calls made to the remote store are one upload
  for each \<^verbatim>\<open>.csv\<close> entry and then the three calls of one \<^verbatim>\<open>remove_duplicates\<close>: the
  deduplicator runs exactly once, after all files. With no \<^verbatim>\<open>.csv\<close> entry the run
  makes no upload and still runs the deduplicator once. A run that ends with an error
  has made uploads only: the deduplicator has not run.
\<close>

theorem deduplicator_once_after_all_files:
  "exports w = Some entries \<and> main w = (r, w') \<longrightarrow>
     (r = None \<longrightarrow>
        (\<exists>ls. jobs w' = jobs w @ ls @ [CountQuery, RewriteQuery, CountQuery] \<and>
              list_all is_load ls \<and>
              length ls = length (filter (\<lambda>(n, _). endswith n ''.csv'') entries))) \<and>
     (r \<noteq> None \<longrightarrow> (\<exists>ls. jobs w' = jobs w @ ls \<and> list_all is_load ls)) \<and>
     (filter (\<lambda>(n, _). endswith n ''.csv'') entries = [] \<longrightarrow>
        r = None \<and> jobs w' = jobs w @ [CountQuery, RewriteQuery, CountQuery])"
proof (intro impI)
  assume a: "exports w = Some entries \<and> main w = (r, w')"
  then have x: "exports w = Some entries" and m: "main w = (r, w')"
    by simp_all
  obtain r1 w1 where p: "process_all entries w = (r1, w1)"
    by (cases "process_all entries w")
  from process_all_jobs [OF p] obtain ls where
    ls: "jobs w1 = jobs w @ ls" "list_all is_load ls"
      "r1 = None \<longrightarrow> length ls = length (filter (\<lambda>(n, _). endswith n ''.csv'') entries)"
    by auto
  show "(r = None \<longrightarrow>
        (\<exists>ls. jobs w' = jobs w @ ls @ [CountQuery, RewriteQuery, CountQuery] \<and>
              list_all is_load ls \<and>
              length ls = length (filter (\<lambda>(n, _). endswith n ''.csv'') entries))) \<and>
     (r \<noteq> None \<longrightarrow> (\<exists>ls. jobs w' = jobs w @ ls \<and> list_all is_load ls)) \<and>
     (filter (\<lambda>(n, _). endswith n ''.csv'') entries = [] \<longrightarrow>
        r = None \<and> jobs w' = jobs w @ [CountQuery, RewriteQuery, CountQuery])"
  proof (cases r1)
    case (Some e)
    with x m p have rw: "r = Some e" "w' = w1"
      by (simp_all add: main_def)
    have "filter (\<lambda>(n, _). endswith n ''.csv'') entries \<noteq> []"
    proof
      assume "filter (\<lambda>(n, _). endswith n ''.csv'') entries = []"
      then have "process_all (filter (\<lambda>(n, _). endswith n ''.csv'') entries) w = (None, w)"
        by simp
      with p Some show False
        by (simp add: process_all_filter)
    qed
    with rw ls show ?thesis by auto
  next
    case None
    with x m p have rw: "r = None" "w' = remove_duplicates (w1\<lparr>stdout := stdout w1 @ [AllProcessed]\<rparr>)"
      by (simp_all add: main_def)
    then have "jobs w' = jobs w @ ls @ [CountQuery, RewriteQuery, CountQuery]"
      using ls(1) by (simp add: remove_duplicates_jobs)
    with rw None ls show ?thesis by auto
  qed
qed

theorem deduplicator_once_after_all_files_witness:
  "fst (main (start [(''notes.txt'', None)] (today_is (Date 2024 1 5)))) = None \<and>
   jobs (snd (main (start [(''notes.txt'', None)] (today_is (Date 2024 1 5))))) =
     [CountQuery, RewriteQuery, CountQuery]"
proof -
  have e: "main (start [(''notes.txt'', None)] (today_is (Date 2024 1 5))) =
      (fst (main (start [(''notes.txt'', None)] (today_is (Date 2024 1 5)))),
       snd (main (start [(''notes.txt'', None)] (today_is (Date 2024 1 5)))))"
    by simp
  have x: "exports (start [(''notes.txt'', None)] (today_is (Date 2024 1 5))) = Some [(''notes.txt'', None)]"
    by (simp add: start_def)
  have j: "jobs (start [(''notes.txt'', None)] (today_is (Date 2024 1 5))) = []"
    by (simp add: start_def)
  have f: "filter (\<lambda>(n, _). endswith n ''.csv'') [(''notes.txt'', None :: source_file option)] = []"
    by (simp add: endswith_def)
  show ?thesis
    using deduplicator_once_after_all_files
      [of "start [(''notes.txt'', None)] (today_is (Date 2024 1 5))" "[(''notes.txt'', None)]"
          "fst (main (start [(''notes.txt'', None)] (today_is (Date 2024 1 5))))"
          "snd (main (start [(''notes.txt'', None)] (today_is (Date 2024 1 5))))"]
      e x j f
    by simp
qed

section \<open>The entries that are processed\<close>

lemma uploaded_paths_append: "uploaded_paths (a @ b) = uploaded_paths a @ uploaded_paths b"
  by (induction a rule: uploaded_paths.induct) simp_all

lemma currency_to_float_prints: "uploaded_paths (fst (currency_to_float s)) = []"
  by (cases s) (simp_all add: currency_to_float_def)

lemma convert_currency_prints: "uploaded_paths (fst (convert_currency name data)) = []"
proof (cases "getitem data name")
  case (Inl e)
  then show ?thesis by (simp add: convert_currency_def)
next
  case (Inr ss)
  show ?thesis
  proof (cases ss)
    case Nil
    with Inr show ?thesis by (simp add: convert_currency_def)
  next
    case (Cons x xs)
    show ?thesis
    proof (cases xs)
      case Nil
      with Inr Cons currency_to_float_prints [of x] show ?thesis
        by (cases "currency_to_float x") (auto simp: convert_currency_def split: sum.splits)
    next
      case (Cons y ys)
      with Inr \<open>ss = x # xs\<close> show ?thesis by (simp add: convert_currency_def)
    qed
  qed
qed

lemma normalize_prints: "uploaded_paths (fst (normalize account_name today data)) = []"
proof -
  have "uploaded_paths out1 = []" if "convert_currency n d = (out1, r)" for n d out1 r
    using convert_currency_prints [of n d] that by simp
  then show ?thesis
    by (auto simp: normalize_def Let_def uploaded_paths_append split: prod.splits sum.splits)
qed

lemma upload_frame_prints:
  assumes "upload_frame p account_name data w = (r, w')"
  shows "uploaded_paths (stdout w') = uploaded_paths (stdout w) @ (if r = None then [p] else [])"
proof -
  obtain out res where n: "normalize account_name (clock w (reads w)) data = (out, res)"
    by (cases "normalize account_name (clock w (reads w)) data")
  then have "uploaded_paths out = []"
    using normalize_prints [of account_name "clock w (reads w)" data] by simp
  with assms n show ?thesis
    by (cases res)
      (auto simp: upload_frame_def Let_def load_table_from_dataframe_def uploaded_paths_append)
qed

lemma process_csv_file_prints:
  assumes "process_csv_file p entry w = (r, w')"
  shows "uploaded_paths (stdout w') = uploaded_paths (stdout w) @ (if r = None then [p] else [])"
proof (cases entry)
  case None
  with assms show ?thesis by (auto simp: process_csv_file_def)
next
  case (Some f)
  show ?thesis
  proof (cases "extract_account_name (first_line f)")
    case (Inl e)
    with assms Some show ?thesis by (auto simp: process_csv_file_def)
  next
    case (Inr account_name)
    show ?thesis
    proof (cases "read_csv 4 f")
      case (Inl e)
      with assms Some Inr show ?thesis by (auto simp: process_csv_file_def)
    next
      case (Inr data)
      with assms Some \<open>extract_account_name (first_line f) = Inr account_name\<close>
      have "upload_frame p account_name data w = (r, w')"
        by (simp add: process_csv_file_def)
      then show ?thesis by (rule upload_frame_prints)
    qed
  qed
qed

lemma process_all_prints:
  "process_all entries w = (None, w') \<Longrightarrow>
     uploaded_paths (stdout w') =
       uploaded_paths (stdout w) @
       map (\<lambda>(n, _). CSV_DIRECTORY @ ''/'' @ n) (filter (\<lambda>(n, _). endswith n ''.csv'') entries)"
proof (induction entries arbitrary: w)
  case Nil
  then show ?case by simp
next
  case (Cons entry entries)
  obtain filename src where entry: "entry = (filename, src)"
    by (cases entry)
  show ?case
  proof (cases "endswith filename ''.csv''")
    case False
    with Cons entry show ?thesis by simp
  next
    case True
    obtain r1 w1 where p: "process_csv_file (CSV_DIRECTORY @ ''/'' @ filename) src w = (r1, w1)"
      by (cases "process_csv_file (CSV_DIRECTORY @ ''/'' @ filename) src w")
    show ?thesis
    proof (cases r1)
      case (Some e)
      with Cons.prems entry True p show ?thesis by simp
    next
      case None
      with Cons.prems entry True p have rest: "process_all entries w1 = (None, w')"
        by simp
      from process_csv_file_prints [OF p] None
      have "uploaded_paths (stdout w1) = uploaded_paths (stdout w) @ [CSV_DIRECTORY @ ''/'' @ filename]"
        by simp
      with Cons.IH [OF rest] entry True show ?thesis by simp
    qed
  qed
qed

text \<open>
  C9. The loop processes an entry if and only if its name ends in the lowercase string
  ".csv". An entry with such a name is handed to \<^verbatim>\<open>process_csv_file\<close> under its path
  in the directory, and the loop goes on with the entries after it when that call
  returns and ends with its exception otherwise; an entry with any other name is passed
  over and leaves everything as it is. A name that ends in four characters other than
  ".csv", such as ".CSV", is passed over. So the loop over a directory is the loop over
  its ".csv" entries alone, with no such entry nothing happens at all, and when the
  loop completes, the files reported as uploaded are exactly the ".csv" entries, in
  their order, and one upload has been made for each of them.
\<close>

theorem csv_suffix_case_sensitive:
  "process_all entries w = process_all (filter (\<lambda>(n, _). endswith n ''.csv'') entries) w \<and>
   (length suffix = 4 \<longrightarrow> endswith (base @ suffix) ''.csv'' = (suffix = ''.csv'')) \<and>
   \<not> endswith (base @ ''.CSV'') ''.csv'' \<and>
   ((\<forall>(n, e) \<in> set entries. \<not> endswith n ''.csv'') \<longrightarrow> process_all entries w = (None, w)) \<and>
   (endswith name ''.csv'' \<longrightarrow>
      process_all ((name, entry) # rest) w =
        (case process_csv_file (CSV_DIRECTORY @ ''/'' @ name) entry w of
           (Some e, w1) \<Rightarrow> (Some e, w1)
         | (None, w1) \<Rightarrow> process_all rest w1)) \<and>
   (\<not> endswith name ''.csv'' \<longrightarrow> process_all ((name, entry) # rest) w = process_all rest w) \<and>
   (process_all entries w = (None, w') \<longrightarrow>
      uploaded_paths (stdout w') =
        uploaded_paths (stdout w) @
        map (\<lambda>(n, _). CSV_DIRECTORY @ ''/'' @ n) (filter (\<lambda>(n, _). endswith n ''.csv'') entries) \<and>
      (\<exists>ls. jobs w' = jobs w @ ls \<and> list_all is_load ls \<and>
            length ls = length (filter (\<lambda>(n, _). endswith n ''.csv'') entries)))"
proof (intro conjI impI)
  show "process_all entries w = process_all (filter (\<lambda>(n, _). endswith n ''.csv'') entries) w"
    by (simp only: process_all_filter)
  show "\<not> endswith (base @ ''.CSV'') ''.csv''"
    by (simp add: endswith_def)
next
  assume "length suffix = 4"
  then show "endswith (base @ suffix) ''.csv'' = (suffix = ''.csv'')"
    by (simp add: endswith_def)
next
  assume "\<forall>(n, e) \<in> set entries. \<not> endswith n ''.csv''"
  then show "process_all entries w = (None, w)"
    by (rule process_all_none)
next
  assume "endswith name ''.csv''"
  then show "process_all ((name, entry) # rest) w =
        (case process_csv_file (CSV_DIRECTORY @ ''/'' @ name) entry w of
           (Some e, w1) \<Rightarrow> (Some e, w1)
         | (None, w1) \<Rightarrow> process_all rest w1)"
    by (simp split: prod.splits option.splits)
next
  assume "\<not> endswith name ''.csv''"
  then show "process_all ((name, entry) # rest) w = process_all rest w"
    by simp
next
  assume "process_all entries w = (None, w')"
  then show "uploaded_paths (stdout w') =
        uploaded_paths (stdout w) @
        map (\<lambda>(n, _). CSV_DIRECTORY @ ''/'' @ n) (filter (\<lambda>(n, _). endswith n ''.csv'') entries)"
    by (rule process_all_prints)
next
  assume "process_all entries w = (None, w')"
  from process_all_jobs [OF this]
  show "\<exists>ls. jobs w' = jobs w @ ls \<and> list_all is_load ls \<and>
            length ls = length (filter (\<lambda>(n, _). endswith n ''.csv'') entries)"
    by simp
qed

theorem csv_suffix_case_sensitive_witness:
  "endswith ''a.csv'' ''.csv'' \<and> \<not> endswith ''march.CSV'' ''.csv'' \<and>
   \<not> endswith ''notes.txt'' ''.csv'' \<and> length ''.CSV'' = 4 \<and>
   fst (process_all [(''a.csv'', Some (statement summary_line [tesco_row])),
                     (''march.CSV'', Some (statement summary_line [tesco_row])),
                     (''notes.txt'', None)] (start [] (today_is (Date 2024 1 5)))) = None \<and>
   uploaded_paths (stdout (snd (process_all
                    [(''a.csv'', Some (statement summary_line [tesco_row])),
                     (''march.CSV'', Some (statement summary_line [tesco_row])),
                     (''notes.txt'', None)] (start [] (today_is (Date 2024 1 5)))))) =
     [''exports/a.csv''] \<and>
   jobs (snd (process_all
                    [(''a.csv'', Some (statement summary_line [tesco_row])),
                     (''march.CSV'', Some (statement summary_line [tesco_row])),
                     (''notes.txt'', None)] (start [] (today_is (Date 2024 1 5))))) =
     [LoadJob [tesco_uploaded (VDate (Date 2024 1 5)) (Date 2024 1 5)]]"
proof -
  have n: "endswith ''a.csv'' ''.csv''" "\<not> endswith ''march.CSV'' ''.csv''"
    "\<not> endswith ''notes.txt'' ''.csv''"
    by (simp_all add: endswith_def)
  have run: "process_all [(''a.csv'', Some (statement summary_line [tesco_row])),
                     (''march.CSV'', Some (statement summary_line [tesco_row])),
                     (''notes.txt'', None)] (start [] (today_is (Date 2024 1 5))) =
     (None, (start [] (today_is (Date 2024 1 5)))
        \<lparr>reads := 1, table := [tesco_uploaded (VDate (Date 2024 1 5)) (Date 2024 1 5)],
          jobs := [LoadJob [tesco_uploaded (VDate (Date 2024 1 5)) (Date 2024 1 5)]],
          stdout := [Uploaded ''exports/a.csv'']\<rparr>)"
    using csv_suffix_case_sensitive
      [of "[(''a.csv'', Some (statement summary_line [tesco_row])),
            (''march.CSV'', Some (statement summary_line [tesco_row])),
            (''notes.txt'', None)]"
          "start [] (today_is (Date 2024 1 5))" "''.CSV''" "''march''" "''a.csv''"
          "Some (statement summary_line [tesco_row])"
          "[(''march.CSV'', Some (statement summary_line [tesco_row])), (''notes.txt'', None)]"]
      n
    by (simp add: tesco_upload) (simp add: start_def today_is_def CSV_DIRECTORY_def)
  show ?thesis
    unfolding run using n by simp
qed

section \<open>The upload date\<close>

lemma setitem_nrows: "nrows (setitem data name s) = nrows data"
  by (simp add: setitem_def)

lemma setitem_self: "(name, s) \<in> set (cols (setitem data name s))"
proof (cases "name \<in> set (map fst (cols data))")
  case True
  then obtain old where "(name, old) \<in> set (cols data)"
    by auto
  then have "(name, s) \<in> (\<lambda>(n, old). if n = name then (n, s) else (n, old)) ` set (cols data)"
    by force
  with True show ?thesis
    by (simp add: setitem_def)
next
  case False
  then show ?thesis
    by (simp add: setitem_def)
qed

lemma setitem_other:
  assumes "(n, c) \<in> set (cols data)" "n \<noteq> name"
  shows "(n, c) \<in> set (cols (setitem data name s))"
proof -
  have "(n, c) \<in> (\<lambda>(n, old). if n = name then (n, s) else (n, old)) ` set (cols data)"
    using assms by force
  with assms show ?thesis
    by (simp add: setitem_def)
qed

lemma convert_currency_keeps:
  assumes "convert_currency name data = (out, Inr data')"
  shows "nrows data' = nrows data"
    and "(n, c) \<in> set (cols data) \<Longrightarrow> n \<noteq> name \<Longrightarrow> (n, c) \<in> set (cols data')"
  using assms
  by (auto simp: convert_currency_def setitem_nrows setitem_other
      split: sum.splits list.splits prod.splits)

lemma convert_date_keeps:
  assumes "convert_date data = Inr data'"
  shows "nrows data' = nrows data"
    and "(n, c) \<in> set (cols data) \<Longrightarrow> n \<noteq> ''date'' \<Longrightarrow> (n, c) \<in> set (cols data')"
  using assms
  by (auto simp: convert_date_def setitem_nrows setitem_other
      split: sum.splits list.splits)

lemma rename_date_uploaded: "rename_column ''date_uploaded'' = ''date_uploaded''"
  by (simp add: rename_column_def lower_char_def)

lemma rename_columns_member: "(n, c) \<in> set (cols data) \<Longrightarrow> (rename_column n, c) \<in> set (cols (rename_columns data))"
  by (force simp: rename_columns_def)

lemma normalize_steps:
  assumes "normalize account_name today data0 = (out, Inr data')"
  obtains out1 out2 out3 data4 data5 data6 where
    "convert_currency ''paid_out''
       (rename_columns (setitem (setitem data0 ''account_name''
                            (Object (replicate (nrows data0) (Text account_name))))
                   ''date_uploaded'' (Object (replicate (nrows data0) (Day today))))) = (out1, Inr data4)"
    "convert_currency ''paid_in'' data4 = (out2, Inr data5)"
    "convert_currency ''balance'' data5 = (out3, Inr data6)"
    "convert_date data6 = Inr data'"
  using assms
  by (auto simp: normalize_def Let_def rename_columns_def setitem_nrows split: prod.splits sum.splits)

lemma normalize_keeps:
  assumes "normalize account_name today data0 = (out, Inr data')"
  shows "nrows data' = nrows data0"
    and "(''date_uploaded'', Object (replicate (nrows data0) (Day today))) \<in> set (cols data')"
proof -
  let ?d2 = "setitem (setitem data0 ''account_name''
                            (Object (replicate (nrows data0) (Text account_name))))
                   ''date_uploaded'' (Object (replicate (nrows data0) (Day today)))"
  from assms obtain out1 out2 out3 data4 data5 data6 where
    s: "convert_currency ''paid_out'' (rename_columns ?d2) = (out1, Inr data4)"
       "convert_currency ''paid_in'' data4 = (out2, Inr data5)"
       "convert_currency ''balance'' data5 = (out3, Inr data6)"
       "convert_date data6 = Inr data'"
    by (rule normalize_steps)
  have n3: "nrows (rename_columns ?d2) = nrows data0"
    by (simp add: rename_columns_def setitem_nrows)
  show "nrows data' = nrows data0"
    using convert_currency_keeps(1) [OF s(1)] convert_currency_keeps(1) [OF s(2)]
      convert_currency_keeps(1) [OF s(3)] convert_date_keeps(1) [OF s(4)] n3
    by simp
  have "(''date_uploaded'', Object (replicate (nrows data0) (Day today))) \<in> set (cols ?d2)"
    by (rule setitem_self)
  then have "(''date_uploaded'', Object (replicate (nrows data0) (Day today))) \<in> set (cols (rename_columns ?d2))"
    using rename_columns_member rename_date_uploaded by metis
  then have "(''date_uploaded'', Object (replicate (nrows data0) (Day today))) \<in> set (cols data4)"
    by (rule convert_currency_keeps(2) [OF s(1)]) simp
  then have "(''date_uploaded'', Object (replicate (nrows data0) (Day today))) \<in> set (cols data5)"
    by (rule convert_currency_keeps(2) [OF s(2)]) simp
  then have "(''date_uploaded'', Object (replicate (nrows data0) (Day today))) \<in> set (cols data6)"
    by (rule convert_currency_keeps(2) [OF s(3)]) simp
  then show "(''date_uploaded'', Object (replicate (nrows data0) (Day today))) \<in> set (cols data')"
    by (rule convert_date_keeps(2) [OF s(4)]) simp
qed

lemma to_rows_member:
  assumes "row \<in> set (to_rows data)" "(n, s) \<in> set (cols data)"
  shows "\<exists>i<nrows data. (n, series_vals s ! i) \<in> set row"
  using assms by (force simp: to_rows_def)

lemma length_to_rows: "length (to_rows data) = nrows data"
  by (simp add: to_rows_def)

lemma to_rows_stamped:
  assumes "(''date_uploaded'', Object (replicate (nrows data) (Day d))) \<in> set (cols data)"
  shows "list_all (\<lambda>row. (''date_uploaded'', VDate d) \<in> set row) (to_rows data)"
proof -
  have "(''date_uploaded'', VDate d) \<in> set row" if "row \<in> set (to_rows data)" for row
  proof -
    from to_rows_member [OF that assms] obtain i where
      "i < nrows data" "(''date_uploaded'', series_vals (Object (replicate (nrows data) (Day d))) ! i) \<in> set row"
      by blast
    then show ?thesis by simp
  qed
  then show ?thesis
    by (simp add: list_all_iff)
qed

lemma process_csv_file_upload:
  assumes "process_csv_file p entry w = (None, w')"
  obtains f account_name data out data' where
    "entry = Some f" "extract_account_name (first_line f) = Inr account_name"
    "read_csv 4 f = Inr data"
    "normalize account_name (clock w (reads w)) data = (out, Inr data')"
    "jobs w' = jobs w @ [LoadJob (to_rows data')]"
    "table w' = table w @ to_rows data'"
  using assms
  by (auto simp: process_csv_file_def upload_frame_def load_table_from_dataframe_def Let_def
      split: option.splits sum.splits prod.splits)

lemma process_csv_file_stamped:
  assumes "process_csv_file p entry w = (None, w')"
  shows "\<exists>rows. jobs w' = jobs w @ [LoadJob rows] \<and> stamped (clock w (reads w)) [LoadJob rows]"
proof -
  from assms obtain f account_name data out data' where
    n: "normalize account_name (clock w (reads w)) data = (out, Inr data')"
    and j: "jobs w' = jobs w @ [LoadJob (to_rows data')]"
    by (rule process_csv_file_upload)
  have "(''date_uploaded'', Object (replicate (nrows data') (Day (clock w (reads w))))) \<in> set (cols data')"
    using normalize_keeps [OF n] by simp
  then have "stamped (clock w (reads w)) [LoadJob (to_rows data')]"
    by (simp add: stamped_def to_rows_stamped)
  with j show ?thesis by blast
qed

lemma stamped_append: "stamped d (a @ b) \<longleftrightarrow> stamped d a \<and> stamped d b"
  by (simp add: stamped_def)

lemma process_all_stamped:
  "\<forall>i. clock w i = d \<Longrightarrow> stamped d (jobs w) \<Longrightarrow> process_all entries w = (r, w') \<Longrightarrow>
     stamped d (jobs w')"
proof (induction entries arbitrary: w)
  case Nil
  then show ?case by simp
next
  case (Cons entry entries)
  obtain filename src where entry: "entry = (filename, src)"
    by (cases entry)
  show ?case
  proof (cases "endswith filename ''.csv''")
    case False
    with Cons entry show ?thesis by simp
  next
    case True
    obtain r1 w1 where p: "process_csv_file (CSV_DIRECTORY @ ''/'' @ filename) src w = (r1, w1)"
      by (cases "process_csv_file (CSV_DIRECTORY @ ''/'' @ filename) src w")
    note eff = process_csv_file_effect [OF p]
    show ?thesis
    proof (cases r1)
      case (Some e)
      with Cons.prems entry True p have "w' = w1"
        by simp
      with eff Some Cons.prems(2) show ?thesis by simp
    next
      case None
      with Cons.prems entry True p have rest: "process_all entries w1 = (r, w')"
        by simp
      from process_csv_file_stamped p None obtain rows where
        "jobs w1 = jobs w @ [LoadJob rows]" "stamped (clock w (reads w)) [LoadJob rows]"
        by blast
      then have "stamped d (jobs w1)"
        using Cons.prems(1,2) by (simp add: stamped_append)
      moreover have "\<forall>i. clock w1 i = d"
        using eff Cons.prems(1) by simp
      ultimately show ?thesis
        using Cons.IH rest by blast
    qed
  qed
qed

text \<open>
  C5, as stated, fails: the date is read from the clock inside \<^verbatim>\<open>process_csv_file\<close>,
  once for each file. In a run that passes midnight between two files, the rows of the
  first file carry 31 January and the rows of the second 1 February.
\<close>

theorem date_uploaded_differs_counterexample:
  "fst (main (start [(''a.csv'', Some (statement summary_line [tesco_row])),
                     (''b.csv'', Some (statement summary_line [tesco_row]))] midnight_clock)) = None \<and>
   date_uploaded_of (jobs (snd (main (start [(''a.csv'', Some (statement summary_line [tesco_row])),
                     (''b.csv'', Some (statement summary_line [tesco_row]))] midnight_clock)))) =
     [VDate (Date 2024 1 31), VDate (Date 2024 2 1)]"
  by (simp add: main_def start_def csv_names tesco_upload remove_duplicates_jobs
      date_uploaded_of_def tesco_uploaded_def midnight_clock_def)

text \<open>
  C5, amended. Every row that one call of \<^verbatim>\<open>process_csv_file\<close> uploads carries in
  \<^verbatim>\<open>date_uploaded\<close> the one date read from the clock in that call. All rows of all files
  of a run carry the same date when the clock shows the same date at every reading of the
  run.
\<close>

theorem date_uploaded_fixed_per_file:
  "(process_csv_file p entry w = (None, w') \<longrightarrow>
      (\<exists>rows. jobs w' = jobs w @ [LoadJob rows] \<and> stamped (clock w (reads w)) [LoadJob rows])) \<and>
   ((\<forall>i. clock w i = d) \<and> stamped d (jobs w) \<longrightarrow> stamped d (jobs (snd (main w))))"
proof (intro conjI impI)
  assume "process_csv_file p entry w = (None, w')"
  then show "\<exists>rows. jobs w' = jobs w @ [LoadJob rows] \<and> stamped (clock w (reads w)) [LoadJob rows]"
    by (rule process_csv_file_stamped)
next
  assume a: "(\<forall>i. clock w i = d) \<and> stamped d (jobs w)"
  show "stamped d (jobs (snd (main w)))"
  proof (cases "exports w")
    case None
    with a show ?thesis by (simp add: main_def)
  next
    case (Some entries)
    obtain r1 w1 where p: "process_all entries w = (r1, w1)"
      by (cases "process_all entries w")
    from a have "stamped d (jobs w1)"
      using process_all_stamped [OF _ _ p] by blast
    then show ?thesis
      using Some p
      by (cases r1) (simp_all add: main_def remove_duplicates_jobs stamped_append stamped_def)
  qed
qed

theorem date_uploaded_fixed_per_file_witness:
  "(\<forall>i. clock (start [(''a.csv'', Some (statement summary_line [tesco_row])),
                     (''b.csv'', Some (statement summary_line [tesco_row]))]
                    (today_is (Date 2024 1 5))) i = Date 2024 1 5) \<and>
   stamped (Date 2024 1 5)
     (jobs (snd (main (start [(''a.csv'', Some (statement summary_line [tesco_row])),
                     (''b.csv'', Some (statement summary_line [tesco_row]))]
                    (today_is (Date 2024 1 5)))))) \<and>
   date_uploaded_of
     (jobs (snd (main (start [(''a.csv'', Some (statement summary_line [tesco_row])),
                     (''b.csv'', Some (statement summary_line [tesco_row]))]
                    (today_is (Date 2024 1 5)))))) = [VDate (Date 2024 1 5), VDate (Date 2024 1 5)]"
proof -
  have c: "\<forall>i. clock (start [(''a.csv'', Some (statement summary_line [tesco_row])),
                     (''b.csv'', Some (statement summary_line [tesco_row]))]
                    (today_is (Date 2024 1 5))) i = Date 2024 1 5"
    by (simp add: start_def today_is_def)
  have s: "stamped (Date 2024 1 5) (jobs (start [(''a.csv'', Some (statement summary_line [tesco_row])),
                     (''b.csv'', Some (statement summary_line [tesco_row]))]
                    (today_is (Date 2024 1 5))))"
    by (simp add: start_def stamped_def)
  have v: "date_uploaded_of
     (jobs (snd (main (start [(''a.csv'', Some (statement summary_line [tesco_row])),
                     (''b.csv'', Some (statement summary_line [tesco_row]))]
                    (today_is (Date 2024 1 5)))))) = [VDate (Date 2024 1 5), VDate (Date 2024 1 5)]"
    by (simp add: main_def start_def csv_names tesco_upload remove_duplicates_jobs
        date_uploaded_of_def tesco_uploaded_def today_is_def)
  show ?thesis
    using c s v date_uploaded_fixed_per_file
      [of "[]" None "start [(''a.csv'', Some (statement summary_line [tesco_row])),
                     (''b.csv'', Some (statement summary_line [tesco_row]))]
                    (today_is (Date 2024 1 5))" _ "Date 2024 1 5"]
    by blast
qed

section \<open>A file without records\<close>

lemma read_csv_frame:
  assumes "filter (\<lambda>l. l \<noteq> []) (drop 3 (later_lines f)) = header # records"
    and "read_csv 4 f = Inr data"
  shows "nrows data = length records"
    and "j < length header \<Longrightarrow>
           (header ! j, infer_column (map (\<lambda>r. if j < length r then r ! j else []) records))
             \<in> set (cols data)"
  using assms by (auto simp: read_csv_def split: if_splits)

lemma rename_account_name: "rename_column ''account_name'' = ''account_name''"
  by (simp add: rename_column_def lower_char_def)

lemma rename_differs: "rename_column h = x \<Longrightarrow> rename_column y = y' \<Longrightarrow> x \<noteq> y' \<Longrightarrow> h \<noteq> y"
  by auto

lemma header_only_normalize:
  assumes "rename_column h0 = ''date''" "rename_column h1 = ''transaction_type''"
    "rename_column h2 = ''description''" "rename_column h3 = ''paid_out''"
    "rename_column h4 = ''paid_in''" "rename_column h5 = ''balance''"
  shows "normalize account_name today
           \<lparr>nrows = 0, cols = [(h0, Object []), (h1, Object []), (h2, Object []),
                               (h3, Object []), (h4, Object []), (h5, Object [])]\<rparr> =
         ([], Inr \<lparr>nrows = 0,
                  cols = [(''date'', Datetime64 []), (''transaction_type'', Object []),
                          (''description'', Object []), (''paid_out'', Int64 []),
                          (''paid_in'', Int64 []), (''balance'', Int64 []),
                          (''account_name'', Object []), (''date_uploaded'', Object [])]\<rparr>)"
proof -
  have a: "h0 \<noteq> ''account_name''" "h1 \<noteq> ''account_name''" "h2 \<noteq> ''account_name''"
    "h3 \<noteq> ''account_name''" "h4 \<noteq> ''account_name''" "h5 \<noteq> ''account_name''"
    using assms by (auto dest!: rename_differs [OF _ rename_account_name])
  have u: "h0 \<noteq> ''date_uploaded''" "h1 \<noteq> ''date_uploaded''" "h2 \<noteq> ''date_uploaded''"
    "h3 \<noteq> ''date_uploaded''" "h4 \<noteq> ''date_uploaded''" "h5 \<noteq> ''date_uploaded''"
    using assms by (auto dest!: rename_differs [OF _ rename_date_uploaded])
  let ?d0 = "\<lparr>nrows = 0, cols = [(h0, Object []), (h1, Object []), (h2, Object []),
                               (h3, Object []), (h4, Object []), (h5, Object [])]\<rparr>"
  let ?d1 = "setitem ?d0 ''account_name'' (Object (replicate (nrows ?d0) (Text account_name)))"
  let ?d2 = "setitem ?d1 ''date_uploaded'' (Object (replicate (nrows ?d1) (Day today)))"
  have d3: "rename_columns ?d2 =
         \<lparr>nrows = 0,
                  cols = [(''date'', Object []), (''transaction_type'', Object []),
                          (''description'', Object []), (''paid_out'', Object []),
                          (''paid_in'', Object []), (''balance'', Object []),
                          (''account_name'', Object []), (''date_uploaded'', Object [])]\<rparr>"
    using a u a [symmetric] u [symmetric]
    by (simp add: setitem_def rename_columns_def assms rename_account_name rename_date_uploaded)
  show ?thesis
    unfolding normalize_def Let_def d3
    by (simp add: convert_currency_def getitem_def setitem_def
        currency_to_float_def str_replace_def str_accessor_ok_def to_numeric_def
        convert_date_def to_datetime_def)
qed

text \<open>
  C8, as stated, fails: a file with two lines after the three skipped ones that follow
  the summary line (the header and one record, so four or fewer lines) does not give an
  empty record set; its record is uploaded.
\<close>

theorem records_after_header_are_uploaded_counterexample:
  "length (drop 3 (later_lines (statement summary_line [tesco_row]))) = 2 \<and>
   fst (process_csv_file ''exports/a.csv'' (Some (statement summary_line [tesco_row]))
          (start [] (today_is (Date 2024 1 5)))) = None \<and>
   table (snd (process_csv_file ''exports/a.csv'' (Some (statement summary_line [tesco_row]))
          (start [] (today_is (Date 2024 1 5))))) =
     [tesco_uploaded (VDate (Date 2024 1 5)) (Date 2024 1 5)]"
proof -
  have "length (drop 3 (later_lines (statement summary_line [tesco_row]))) = 2"
    by (simp add: statement_def)
  moreover have "process_csv_file ''exports/a.csv'' (Some (statement summary_line [tesco_row]))
          (start [] (today_is (Date 2024 1 5))) =
     (None, (start [] (today_is (Date 2024 1 5)))
        \<lparr>reads := 1, table := [tesco_uploaded (VDate (Date 2024 1 5)) (Date 2024 1 5)],
          jobs := [LoadJob [tesco_uploaded (VDate (Date 2024 1 5)) (Date 2024 1 5)]],
          stdout := [Uploaded ''exports/a.csv'']\<rparr>)"
    unfolding tesco_upload by (simp add: start_def today_is_def)
  ultimately show ?thesis
    by simp
qed

text \<open>
  C8, amended. A source file with a valid summary line in which only the header line
  (naming the six columns of the export) follows the four skipped lines gives an empty
  record set: \<^verbatim>\<open>process_csv_file\<close> returns without an error, the one upload it makes
  has no rows and the table is unchanged. With nothing at all after the skipped lines
  \<^verbatim>\<open>read_csv\<close> raises \<open>EmptyDataError\<close>. In general, a file that is processed without
  an error uploads one row for every line that follows the header.
\<close>

theorem header_only_file_uploads_nothing:
  "(extract_account_name (first_line f) = Inr account_name \<and>
    filter (\<lambda>l. l \<noteq> []) (drop 3 (later_lines f)) = [header] \<and>
    map rename_column header =
      [''date'', ''transaction_type'', ''description'', ''paid_out'', ''paid_in'', ''balance''] \<longrightarrow>
      process_csv_file p (Some f) w =
        (None, w\<lparr>reads := Suc (reads w), jobs := jobs w @ [LoadJob []],
                  stdout := stdout w @ [Uploaded p]\<rparr>)) \<and>
   (extract_account_name (first_line f) = Inr account_name \<and>
    filter (\<lambda>l. l \<noteq> []) (drop 3 (later_lines f)) = [] \<longrightarrow>
      process_csv_file p (Some f) w = (Some EmptyDataError, w)) \<and>
   (filter (\<lambda>l. l \<noteq> []) (drop 3 (later_lines f)) = header # records \<and>
    process_csv_file p (Some f) w = (None, w') \<longrightarrow>
      (\<exists>rows. jobs w' = jobs w @ [LoadJob rows] \<and> table w' = table w @ rows \<and>
            length rows = length records))"
proof (intro conjI impI)
  assume a: "extract_account_name (first_line f) = Inr account_name \<and>
    filter (\<lambda>l. l \<noteq> []) (drop 3 (later_lines f)) = [header] \<and>
    map rename_column header =
      [''date'', ''transaction_type'', ''description'', ''paid_out'', ''paid_in'', ''balance'']"
  then obtain h0 h1 h2 h3 h4 h5 where h: "header = [h0, h1, h2, h3, h4, h5]"
    and r: "rename_column h0 = ''date''" "rename_column h1 = ''transaction_type''"
    "rename_column h2 = ''description''" "rename_column h3 = ''paid_out''"
    "rename_column h4 = ''paid_in''" "rename_column h5 = ''balance''"
    by (auto simp: map_eq_Cons_conv)
  have rd: "read_csv 4 f =
      Inr \<lparr>nrows = 0, cols = [(h0, Object []), (h1, Object []), (h2, Object []),
                               (h3, Object []), (h4, Object []), (h5, Object [])]\<rparr>"
    using a h by (simp add: read_csv_def infer_column_def upt_rec)
  show "process_csv_file p (Some f) w =
        (None, w\<lparr>reads := Suc (reads w), jobs := jobs w @ [LoadJob []],
                  stdout := stdout w @ [Uploaded p]\<rparr>)"
    using a
    by (simp add: process_csv_file_def upload_frame_def rd header_only_normalize [OF r] to_rows_def
        load_table_from_dataframe_def Let_def)
next
  assume "extract_account_name (first_line f) = Inr account_name \<and>
    filter (\<lambda>l. l \<noteq> []) (drop 3 (later_lines f)) = []"
  then show "process_csv_file p (Some f) w = (Some EmptyDataError, w)"
    by (simp add: process_csv_file_def read_csv_def)
next
  assume a: "filter (\<lambda>l. l \<noteq> []) (drop 3 (later_lines f)) = header # records \<and>
    process_csv_file p (Some f) w = (None, w')"
  then obtain account_name data out data' where
    rd: "read_csv 4 f = Inr data"
    and nm: "normalize account_name (clock w (reads w)) data = (out, Inr data')"
    and j: "jobs w' = jobs w @ [LoadJob (to_rows data')]"
    and t: "table w' = table w @ to_rows data'"
    by (auto elim: process_csv_file_upload)
  have "length (to_rows data') = length records"
    using normalize_keeps(1) [OF nm] read_csv_frame(1) [OF _ rd] a
    by (simp add: length_to_rows)
  with j t show "\<exists>rows. jobs w' = jobs w @ [LoadJob rows] \<and> table w' = table w @ rows \<and>
            length rows = length records"
    by blast
qed

theorem header_only_file_uploads_nothing_witness:
  "extract_account_name (first_line (statement summary_line [])) = Inr ''My Account'' \<and>
   filter (\<lambda>l. l \<noteq> []) (drop 3 (later_lines (statement summary_line []))) = [statement_header] \<and>
   process_csv_file ''exports/a.csv'' (Some (statement summary_line []))
       (start [] (today_is (Date 2024 1 5))) =
     (None, \<lparr>exports = Some [], clock = today_is (Date 2024 1 5), reads = 1, table = [],
              jobs = [LoadJob []], stdout = [Uploaded ''exports/a.csv'']\<rparr>)"
proof -
  have h1: "extract_account_name (first_line (statement summary_line [])) = Inr ''My Account''"
    by (simp add: first_line_statement summary_line_name)
  have h2: "filter (\<lambda>l. l \<noteq> []) (drop 3 (later_lines (statement summary_line []))) = [statement_header]"
    by (simp add: statement_def statement_header_def)
  have h3: "map rename_column statement_header =
      [''date'', ''transaction_type'', ''description'', ''paid_out'', ''paid_in'', ''balance'']"
    by (simp add: statement_header_def rename_column_def lower_char_def)
  show ?thesis
    using h1 h2 h3 header_only_file_uploads_nothing
      [of "statement summary_line []" "''My Account''" statement_header "''exports/a.csv''"
          "start [] (today_is (Date 2024 1 5))"]
    by (simp add: start_def)
qed

section \<open>A date that does not match the format\<close>


















end
